theory Spec2Isabelle
  imports Complex_Main "HOL-Library.Word"
begin

section \<open>The audio pipeline of src/main.cpp\<close>

text \<open>
  The firmware synthesises speech into one fixed PCM buffer and then plays the buffer in
  chunks of 512 samples, moving the avatar's mouth with the loudness of each chunk.
  The definitions below follow \<^verbatim>\<open>src/src/main.cpp\<close> function by function and keep
  its names. Serial logging, the watchdog resets and the fixed delays have no effect on
  the modelled state and are left out.
\<close>

subsection \<open>Configuration\<close>

type_synonym byte = "8 word"
type_synonym int16 = "16 word"
type_synonym uint32 = "32 word"

definition MAX_AUDIO_BUFFER_SIZE :: nat where
  "MAX_AUDIO_BUFFER_SIZE = 160000"

definition MAX_TEXT_LENGTH :: nat where
  "MAX_TEXT_LENGTH = 300"

definition SPEECH_TIMEOUT_MS :: uint32 where
  "SPEECH_TIMEOUT_MS = 15000"

definition chunkSize :: nat where
  "chunkSize = 512"

subsection \<open>Global state and collaborators\<close>

text \<open>
  Modelled from the spec: the declaration of the avatar library's expression enum is
  not among the sources; the spec gives it as \<open>{Neutral, Happy, ...}\<close>. The two values
  that \<^verbatim>\<open>speak\<close> passes are kept, every other value is \<open>OtherExpression\<close>.
\<close>

datatype Expression = Neutral | Happy | OtherExpression

text \<open>
  A call of the speaker driver. \<open>PlayRaw pos n ok\<close> is
  \<^verbatim>\<open>M5.Speaker.playRaw(&g_audioBuffer[pos], n, ...)\<close> with its result.
\<close>

datatype speaker_call = PlayRaw nat nat bool | Stop

text \<open>
  The globals of the file that the pipeline touches, the three avatar properties that
  \<^verbatim>\<open>speak\<close> sets, and the calls the speaker driver has received so far (oldest first).
  \<open>g_audioBuffer = None\<close> is the null pointer. The cursors are \<^verbatim>\<open>size_t\<close>; they never
  exceed the capacity, so \<open>nat\<close> is exact for them. The mouth ratio is a \<^verbatim>\<open>float\<close>; it is
  modelled by the exact quotient.
\<close>

record state =
  g_systemReady :: bool
  g_isSpeaking :: bool
  g_currentLevel :: int
  g_audioBuffer :: "int16 list option"
  g_audioBufferPos :: nat
  g_playbackPos :: nat
  avatar_mouthOpenRatio :: real
  avatar_expression :: Expression
  avatar_speechText :: string
  speaker_calls :: "speaker_call list"

text \<open>
  Modelled from the spec: \<^verbatim>\<open>constrain\<close> is a macro of the Arduino core, which is not among
  the sources; the spec reads it as a clamp into \<open>[low, high]\<close>. (\<^verbatim>\<open>min\<close> and
  \<^verbatim>\<open>abs\<close> are those of HOL.)
\<close>

definition constrain :: "'a::linorder \<Rightarrow> 'a \<Rightarrow> 'a \<Rightarrow> 'a" where
  "constrain amt low high = (if amt < low then low else if amt > high then high else amt)"

subsection \<open>MemoryBufferStream\<close>

text \<open>
  \<^verbatim>\<open>(const int16_t*)data\<close> on the little-endian target: sample \<open>i\<close> has its low byte at
  \<open>2 i\<close> and its high byte at \<open>2 i + 1\<close>. The list has \<open>len / 2\<close> samples; an odd last
  byte belongs to no sample.
\<close>

fun audioData :: "byte list \<Rightarrow> int16 list" where
  "audioData (lo # hi # rest) = word_cat hi lo # audioData rest"
| "audioData rest = []"

text \<open>
  The copy loop of \<^verbatim>\<open>write\<close>. The first argument is the capacity that the loop compares
  the write cursor with (\<open>MAX_AUDIO_BUFFER_SIZE\<close> in the firmware), the list holds the
  samples not yet visited, the last argument is \<^verbatim>\<open>samplesWritten\<close>.
\<close>

fun write_loop :: "nat \<Rightarrow> state \<Rightarrow> int16 list \<Rightarrow> nat \<Rightarrow> state \<times> nat" where
  "write_loop cap st [] samplesWritten = (st, samplesWritten)"
| "write_loop cap st (x # xs) samplesWritten =
     (case g_audioBuffer st of
        None \<Rightarrow> (st, samplesWritten)
      | Some buf \<Rightarrow>
          if g_audioBufferPos st < cap
          then write_loop cap
                 (st\<lparr>g_audioBuffer := Some (buf[g_audioBufferPos st := x]),
                     g_audioBufferPos := g_audioBufferPos st + 1\<rparr>)
                 xs (samplesWritten + 1)
          else (st, samplesWritten))"

text \<open>
  \<^verbatim>\<open>MemoryBufferStream::write(data, len)\<close>: the new state and the number of bytes
  reported back. (\<open>write\<close> and \<open>begin\<close> are Isar keywords, hence the class prefix.)
\<close>

definition MemoryBufferStream_write :: "nat \<Rightarrow> state \<Rightarrow> byte list \<Rightarrow> state \<times> nat" where
  "MemoryBufferStream_write cap st data =
     (if \<not> g_systemReady st then (st, 0)
      else case write_loop cap st (audioData data) 0 of
             (st', samplesWritten) \<Rightarrow> (st', samplesWritten * 2))"

definition MemoryBufferStream_begin :: "state \<Rightarrow> state" where
  "MemoryBufferStream_begin st = st\<lparr>g_audioBufferPos := 0\<rparr>"

subsection \<open>Level calculation\<close>

text \<open>
  \<^verbatim>\<open>updateLevel(samples, count)\<close>; the pointer and the count together are the list of
  samples. \<^verbatim>\<open>sum\<close> is a 32-bit \<^verbatim>\<open>long\<close>: it stays below \<open>10 * 32768\<close>, and every
  operand of a division is non-negative, so \<open>int\<close> and \<open>div\<close> are exact.
\<close>

definition updateLevel :: "state \<Rightarrow> int16 list \<Rightarrow> state" where
  "updateLevel st samples =
     (let count = length samples in
      if count = 0 then st\<lparr>g_currentLevel := 0\<rparr>
      else
        let checkSamples = min count 10;
            sum = fold (\<lambda>i s. s + \<bar>sint (samples ! i)\<bar>) [0..<checkSamples] 0;
            avgLevel = sum div int checkSamples
        in st\<lparr>g_currentLevel := constrain ((avgLevel * 100) div 32767) 0 100\<rparr>)"

text \<open>The mouth ratio that the playback loop derives from \<^verbatim>\<open>g_currentLevel\<close>.\<close>

definition mouthOpen :: "int \<Rightarrow> real" where
  "mouthOpen level = (if level > 3 then constrain (real_of_int level / 30) 0 1 else 0)"

subsection \<open>The environment of one call of speak\<close>

text \<open>
  What the synthesiser does to the stream while \<^verbatim>\<open>espeak.say\<close> runs. The library is
  not among the sources; it reaches the globals only through the methods of
  \<^verbatim>\<open>memoryStream\<close>, so a run of it is a list of such calls (\<^verbatim>\<open>end\<close> only logs).
\<close>

datatype sink_op = SinkBegin | SinkWrite "byte list"

text \<open>
  Everything outside \<^verbatim>\<open>speak\<close> that one call of it observes: the stream calls and the
  result of \<^verbatim>\<open>espeak.say\<close>, the value of \<^verbatim>\<open>millis()\<close> when playback starts and in the
  loop condition of iteration \<open>k\<close>, the result of \<^verbatim>\<open>playRaw\<close> in iteration \<open>k\<close>, and
  whether another task clears \<^verbatim>\<open>g_isSpeaking\<close> while iteration \<open>k\<close> is suspended in
  \<^verbatim>\<open>vTaskDelay\<close>. The loop rereads the global in each condition; no code of the file
  clears it from outside, the last field lets the environment do so.
\<close>

record env =
  say_calls :: "sink_op list"
  say_result :: bool
  millis_start :: uint32
  millis_loop :: "nat \<Rightarrow> uint32"
  playRaw_result :: "nat \<Rightarrow> bool"
  cleared_in_delay :: "nat \<Rightarrow> bool"

fun sink_call :: "nat \<Rightarrow> state \<Rightarrow> sink_op \<Rightarrow> state" where
  "sink_call cap st SinkBegin = MemoryBufferStream_begin st"
| "sink_call cap st (SinkWrite data) = fst (MemoryBufferStream_write cap st data)"

definition espeak_say :: "nat \<Rightarrow> env \<Rightarrow> state \<Rightarrow> state" where
  "espeak_say cap e st = foldl (sink_call cap) st (say_calls e)"

definition vTaskDelay :: "env \<Rightarrow> nat \<Rightarrow> state \<Rightarrow> state" where
  "vTaskDelay e k st = (if cleared_in_delay e k then st\<lparr>g_isSpeaking := False\<rparr> else st)"

subsection \<open>speak\<close>

text \<open>
  The samples at \<^verbatim>\<open>&g_audioBuffer[pos]\<close>, \<open>n\<close> of them. \<^verbatim>\<open>speak\<close> reaches its loop
  only with a buffer, and the loop asks only for samples below the write cursor
  (\<open>chunk_at_length\<close>).
\<close>

definition chunk_at :: "state \<Rightarrow> nat \<Rightarrow> nat \<Rightarrow> int16 list" where
  "chunk_at st pos n = (case g_audioBuffer st of None \<Rightarrow> [] | Some buf \<Rightarrow> take n (drop pos buf))"

text \<open>The condition of the playback loop, as iteration \<open>k\<close> evaluates it.\<close>

definition loop_cond :: "env \<Rightarrow> uint32 \<Rightarrow> nat \<Rightarrow> state \<Rightarrow> bool" where
  "loop_cond e startTime k st \<longleftrightarrow>
     g_playbackPos st < g_audioBufferPos st \<and> g_isSpeaking st \<and>
     millis_loop e k - startTime < SPEECH_TIMEOUT_MS"

text \<open>
  The body of the playback loop in iteration \<open>k\<close>. The second component is \<open>False\<close> when
  the body leaves the loop by \<^verbatim>\<open>break\<close>.
\<close>

definition loop_body :: "env \<Rightarrow> nat \<Rightarrow> state \<Rightarrow> state \<times> bool" where
  "loop_body e k st =
     (let remainingSamples = g_audioBufferPos st - g_playbackPos st;
          currentChunk = min remainingSamples chunkSize;
          st1 = updateLevel st (chunk_at st (g_playbackPos st) currentChunk);
          st2 = st1\<lparr>avatar_mouthOpenRatio := mouthOpen (g_currentLevel st1)\<rparr>;
          playResult = playRaw_result e k;
          st3 = st2\<lparr>speaker_calls :=
                      speaker_calls st2 @ [PlayRaw (g_playbackPos st) currentChunk playResult]\<rparr>
      in if \<not> playResult then (st3, False)
         else (vTaskDelay e k (st3\<lparr>g_playbackPos := g_playbackPos st3 + currentChunk\<rparr>), True))"

function playback_loop :: "env \<Rightarrow> uint32 \<Rightarrow> nat \<Rightarrow> state \<Rightarrow> state" where
  "playback_loop e startTime k st =
     (if loop_cond e startTime k st
      then if snd (loop_body e k st)
           then playback_loop e startTime (Suc k) (fst (loop_body e k st))
           else fst (loop_body e k st)
      else st)"
  by pat_completeness auto

text \<open>
  Each iteration that continues moves the read cursor forward by at least one sample and
  leaves the write cursor alone, so the loop ends for every environment.
\<close>

termination playback_loop
proof (relation "measure (\<lambda>(e, startTime, k, st). g_audioBufferPos st - g_playbackPos st)")
  show "wf (measure (\<lambda>(e, startTime, k, st). g_audioBufferPos st - g_playbackPos st))"
    by simp
next
  fix e :: env and startTime :: uint32 and k :: nat and st :: state
  assume c: "loop_cond e startTime k st" and t: "snd (loop_body e k st)"
  from c have lt: "g_playbackPos st < g_audioBufferPos st"
    by (simp add: loop_cond_def)
  from t have ok: "playRaw_result e k"
    by (simp add: loop_body_def Let_def split: if_splits)
  have a: "g_audioBufferPos (fst (loop_body e k st)) = g_audioBufferPos st"
    using ok by (simp add: loop_body_def Let_def vTaskDelay_def updateLevel_def)
  have b: "g_playbackPos (fst (loop_body e k st)) =
        g_playbackPos st + min (g_audioBufferPos st - g_playbackPos st) chunkSize"
    using ok by (simp add: loop_body_def Let_def vTaskDelay_def updateLevel_def)
  show "((e, startTime, Suc k, fst (loop_body e k st)), (e, startTime, k, st))
          \<in> measure (\<lambda>(e, startTime, k, st). g_audioBufferPos st - g_playbackPos st)"
    using lt by (simp add: a b chunkSize_def)
qed

text \<open>The statements after the loop (lines 291 to 296).\<close>

definition completion :: "state \<Rightarrow> state" where
  "completion st =
     st\<lparr>avatar_mouthOpenRatio := 0,
        avatar_expression := Neutral,
        avatar_speechText := [],
        speaker_calls := speaker_calls st @ [Stop],
        g_currentLevel := 0,
        g_isSpeaking := False\<rparr>"

text \<open>
  The statements between the checks of \<^verbatim>\<open>speak\<close> and the call of the synthesiser
  (lines 200 to 205): the flag is raised, the level and both cursors are zeroed.
\<close>

definition start_request :: "state \<Rightarrow> state" where
  "start_request st =
     st\<lparr>g_isSpeaking := True, g_currentLevel := 0, g_audioBufferPos := 0, g_playbackPos := 0\<rparr>"

text \<open>
  \<^verbatim>\<open>speak\<close> returns a \<^verbatim>\<open>bool\<close>. The model names the \<^verbatim>\<open>return\<close> statement that was taken,
  after the line that is logged before it; \<open>returned\<close> is the value of that statement.
\<close>

datatype speak_exit =
    CannotSpeak | BufferNotAllocated | TextTooLong | EmptyText
  | SayReturnedFalse | NoAudioData | PlaybackCompleted

fun returned :: "speak_exit \<Rightarrow> bool" where
  "returned PlaybackCompleted = True"
| "returned _ = False"

definition speak :: "nat \<Rightarrow> env \<Rightarrow> state \<Rightarrow> string \<Rightarrow> state \<times> speak_exit" where
  "speak cap e st text =
     (if g_isSpeaking st \<or> \<not> g_systemReady st then (st, CannotSpeak)
      else if g_audioBuffer st = None then (st, BufferNotAllocated)
      else
        let len = length text in
        if len > MAX_TEXT_LENGTH then (st, TextTooLong)
        else if len = 0 then (st, EmptyText)
        else
          let st1 = start_request st;
              st2 = espeak_say cap e st1;
              synthSuccess = say_result e
          in if \<not> synthSuccess then (st2\<lparr>g_isSpeaking := False\<rparr>, SayReturnedFalse)
             else if g_audioBufferPos st2 = 0 then (st2\<lparr>g_isSpeaking := False\<rparr>, NoAudioData)
             else
               let st3 = st2\<lparr>avatar_expression := Happy, avatar_speechText := text\<rparr>;
                   st4 = st3\<lparr>g_playbackPos := 0\<rparr>;
                   startTime = millis_start e;
                   st5 = playback_loop e startTime 0 st4
               in (completion st5, PlaybackCompleted))"

subsection \<open>Notions of the specification\<close>

text \<open>
  The level estimator in the words of the specification: nothing for an empty window,
  otherwise the sum of the magnitudes of the first \<open>min(count, 10)\<close> samples, divided by
  the size of that window, scaled by \<open>100/32767\<close> and clamped to \<open>[0, 100]\<close>. Levels
  are integers; both divisions are integer divisions.
\<close>

definition estimateLevel :: "int16 list \<Rightarrow> int" where
  "estimateLevel samples =
     (if length samples = 0 then 0
      else
        let window = take (min (length samples) 10) samples;
            average = (\<Sum>x\<leftarrow>window. \<bar>sint x\<bar>) div int (length window)
        in max 0 (min 100 (average * 100 div 32767)))"

text \<open>
  The number of samples that an append of \<open>n\<close> samples accepts: as many as fit into the
  remaining capacity, none when there is no buffer.
\<close>

definition samplesAccepted :: "nat \<Rightarrow> state \<Rightarrow> nat \<Rightarrow> nat" where
  "samplesAccepted cap st n =
     (if g_audioBuffer st = None then 0 else min n (cap - g_audioBufferPos st))"

text \<open>The cursor invariant of the buffer: \<open>readPos \<le> writePos \<le> capacity\<close>.\<close>

definition cursor_inv :: "nat \<Rightarrow> state \<Rightarrow> bool" where
  "cursor_inv cap st \<longleftrightarrow> g_playbackPos st \<le> g_audioBufferPos st \<and> g_audioBufferPos st \<le> cap"

text \<open>
  The preconditions of \<^verbatim>\<open>speak\<close>: ready, not speaking, buffer allocated, text neither
  empty nor longer than \<open>MAX_TEXT_LENGTH\<close>.
\<close>

definition preconditions :: "state \<Rightarrow> string \<Rightarrow> bool" where
  "preconditions st text \<longleftrightarrow>
     g_systemReady st \<and> \<not> g_isSpeaking st \<and> g_audioBuffer st \<noteq> None \<and>
     text \<noteq> [] \<and> length text \<le> MAX_TEXT_LENGTH"

subsection \<open>Sample inputs\<close>

text \<open>
  The globals as \<^verbatim>\<open>setup\<close> leaves them before its first call of \<^verbatim>\<open>speak\<close>, for a buffer
  of \<open>cap\<close> samples (the block is not initialised by the allocator; zeros stand for its
  content), and an environment in which the synthesiser pushes one block of bytes and
  succeeds, the clock stands still, every chunk is played and nobody clears the flag.
\<close>

definition ready_state :: "nat \<Rightarrow> state" where
  "ready_state cap =
     \<lparr>g_systemReady = True, g_isSpeaking = False, g_currentLevel = 0,
      g_audioBuffer = Some (replicate cap 0), g_audioBufferPos = 0, g_playbackPos = 0,
      avatar_mouthOpenRatio = 0, avatar_expression = Neutral, avatar_speechText = [],
      speaker_calls = []\<rparr>"

definition quiet_env :: "byte list \<Rightarrow> env" where
  "quiet_env data =
     \<lparr>say_calls = [SinkWrite data], say_result = True, millis_start = 0,
      millis_loop = (\<lambda>k. 0), playRaw_result = (\<lambda>k. True),
      cleared_in_delay = (\<lambda>k. False)\<rparr>"

text \<open>
  Three variations: the clock passes the timeout after the first chunk, another task
  clears the flag during every delay, and the speaker refuses every chunk.
\<close>

definition timeout_env :: "byte list \<Rightarrow> env" where
  "timeout_env data = (quiet_env data)\<lparr>millis_loop := (\<lambda>k. if k = 0 then 0 else 15000)\<rparr>"

definition cancel_env :: "byte list \<Rightarrow> env" where
  "cancel_env data = (quiet_env data)\<lparr>cleared_in_delay := (\<lambda>k. True)\<rparr>"

definition failing_env :: "byte list \<Rightarrow> env" where
  "failing_env data = (quiet_env data)\<lparr>playRaw_result := (\<lambda>k. False)\<rparr>"

section \<open>Properties\<close>

subsection \<open>The level estimator\<close>

lemma constrain_max_min: "low \<le> high \<Longrightarrow> constrain amt low high = max low (min high amt)"
  by (auto simp: constrain_def max_def min_def)

lemma fold_index_sum:
  "n \<le> length xs \<Longrightarrow>
   fold (\<lambda>i s. s + f (xs ! i)) [0..<n] (a::int) = a + (\<Sum>x\<leftarrow>take n xs. f x)"
proof (induction n)
  case 0
  then show ?case by simp
next
  case (Suc n)
  then have "take (Suc n) xs = take n xs @ [xs ! n]"
    by (simp add: take_Suc_conv_app_nth)
  with Suc show ?case by simp
qed

lemma updateLevel_level: "g_currentLevel (updateLevel st samples) = estimateLevel samples"
proof (cases "samples = []")
  case True
  then show ?thesis by (simp add: updateLevel_def estimateLevel_def)
next
  case False
  have "min (length samples) 10 \<le> length samples" by simp
  from fold_index_sum [OF this, of "\<lambda>x. \<bar>sint x\<bar>" 0]
  have s: "fold (\<lambda>i s. s + \<bar>sint (samples ! i)\<bar>) [0..<min (length samples) 10] 0 =
      (\<Sum>x\<leftarrow>take (min (length samples) 10) samples. \<bar>sint x\<bar>)" by simp
  from False show ?thesis
    by (simp add: updateLevel_def estimateLevel_def Let_def s constrain_max_min)
qed

lemma abs_sint_uminus: "\<bar>sint (- x)\<bar> = \<bar>sint x\<bar>" for x :: int16
proof (cases "sint x = - 32768")
  case True
  then have "sint (- x) = signed_take_bit 15 (32768 :: int)"
    by (simp add: sint_word_minus)
  also have "\<dots> = - 32768" by (simp add: signed_take_bit_eq_take_bit_shift)
  finally show ?thesis using True by simp
next
  case False
  have "- 32768 \<le> sint x" "sint x < 32768"
    using sint_ge [of x] sint_lt [of x] by simp_all
  with False have "- (2 ^ 15) \<le> - sint x" "- sint x < 2 ^ 15" by simp_all
  then have "signed_take_bit 15 (- sint x) = - sint x"
    by (rule signed_take_bit_int_eq_self)
  then show ?thesis by (simp add: sint_word_minus)
qed

lemma estimateLevel_uminus: "estimateLevel (map uminus samples) = estimateLevel samples"
  by (simp add: estimateLevel_def Let_def take_map o_def abs_sint_uminus)

lemma sum_list_const: "(\<forall>x \<in> set xs. f x = (c::int)) \<Longrightarrow> (\<Sum>x\<leftarrow>xs. f x) = int (length xs) * c"
  by (induction xs) (simp_all add: algebra_simps)

lemma estimateLevel_silence:
  assumes "\<forall>x \<in> set (take 10 samples). x = 0"
  shows "estimateLevel samples = 0"
proof -
  have "take (min (length samples) 10) samples = take 10 samples" by (simp add: min_def)
  moreover from assms have "\<forall>x \<in> set (take 10 samples). \<bar>sint x\<bar> = 0" by auto
  then have "(\<Sum>x\<leftarrow>take 10 samples. \<bar>sint x\<bar>) = int (length (take 10 samples)) * 0"
    by (rule sum_list_const)
  ultimately show ?thesis by (simp add: estimateLevel_def Let_def)
qed

lemma estimateLevel_full:
  assumes "samples \<noteq> []" and "\<forall>x \<in> set (take 10 samples). \<bar>sint x\<bar> = 32767"
  shows "estimateLevel samples = 100"
proof -
  let ?w = "take (min (length samples) 10) samples"
  have w: "?w = take 10 samples" by (simp add: min_def)
  from assms(1) have n: "0 < length ?w" by simp
  from assms(2) have "(\<Sum>x\<leftarrow>take 10 samples. \<bar>sint x\<bar>) = int (length (take 10 samples)) * 32767"
    by (rule sum_list_const)
  with w have "(\<Sum>x\<leftarrow>?w. \<bar>sint x\<bar>) = int (length ?w) * 32767" by simp
  then have "(\<Sum>x\<leftarrow>?w. \<bar>sint x\<bar>) div int (length ?w) = 32767"
    using n by simp
  with assms(1) show ?thesis by (simp add: estimateLevel_def Let_def)
qed

lemma estimateLevel_range: "0 \<le> estimateLevel samples \<and> estimateLevel samples \<le> 100"
  by (simp add: estimateLevel_def Let_def)

text \<open>The sum fits the 32-bit accumulator of the firmware.\<close>

lemma abs_sint_bound: "\<bar>sint x\<bar> \<le> 32768" for x :: int16
  using sint_ge [of x] sint_lt [of x] by simp

lemma sum_abs_bound: "(\<Sum>x\<leftarrow>xs. \<bar>sint x\<bar>) \<le> 32768 * int (length xs)" for xs :: "int16 list"
proof (induction xs)
  case Nil
  then show ?case by simp
next
  case (Cons x xs)
  with abs_sint_bound [of x] show ?case by simp
qed

lemma updateLevel_no_overflow:
  "fold (\<lambda>i s. s + \<bar>sint (samples ! i)\<bar>) [0..<min (length samples) 10] 0 \<le> 327680"
  for samples :: "int16 list"
proof -
  let ?w = "take (min (length samples) 10) samples"
  have "min (length samples) 10 \<le> length samples" by simp
  from fold_index_sum [OF this, of "\<lambda>x. \<bar>sint x\<bar>" 0]
  have "fold (\<lambda>i s. s + \<bar>sint (samples ! i)\<bar>) [0..<min (length samples) 10] 0 =
      (\<Sum>x\<leftarrow>?w. \<bar>sint x\<bar>)" by simp
  also have "\<dots> \<le> 32768 * int (length ?w)"
    by (rule sum_abs_bound)
  also have "\<dots> \<le> 327680" by simp
  finally show ?thesis .
qed

lemma take_window: "take (min (length samples) 10) samples = take 10 samples"
  by (simp add: min_def)

lemma estimateLevel_window: "estimateLevel samples = estimateLevel (take 10 samples)"
proof -
  have b: "take 10 (take 10 samples) = take 10 samples"
    by simp
  have c: "length (take 10 samples) = 0 \<longleftrightarrow> length samples = 0"
    by (cases samples) simp_all
  show ?thesis
    by (simp only: estimateLevel_def Let_def take_window b c)
qed

lemma sint_max_magnitude: "x = 32767 \<or> x = - 32767 \<Longrightarrow> \<bar>sint x\<bar> = 32767" for x :: int16
  by auto

text \<open>
  C4. \<^verbatim>\<open>updateLevel\<close> stores 0 for an empty window; in general it stores the level of
  the specification: the magnitudes of the first \<open>min(count, 10)\<close> samples are summed,
  divided by the size of that window, scaled by \<open>100/32767\<close> and clamped to \<open>[0, 100]\<close>.
  A window of zeros gives 0, a window whose samples are all \<open>32767\<close> or \<open>-32767\<close> gives
  100, negating every sample (in 16 bits) does not change the level, and the level
  depends only on the first ten samples, not on the state in which the function is
  called.
\<close>

theorem updateLevel_estimateLevel:
  "g_currentLevel (updateLevel st []) = 0 \<and>
   g_currentLevel (updateLevel st samples) = estimateLevel samples \<and>
   0 \<le> g_currentLevel (updateLevel st samples) \<and>
   g_currentLevel (updateLevel st samples) \<le> 100 \<and>
   ((\<forall>x \<in> set (take 10 samples). x = 0) \<longrightarrow> g_currentLevel (updateLevel st samples) = 0) \<and>
   (samples \<noteq> [] \<and> (\<forall>x \<in> set (take 10 samples). x = 32767 \<or> x = - 32767) \<longrightarrow>
      g_currentLevel (updateLevel st samples) = 100) \<and>
   g_currentLevel (updateLevel st (map uminus samples)) = g_currentLevel (updateLevel st samples) \<and>
   g_currentLevel (updateLevel st' samples) = g_currentLevel (updateLevel st samples) \<and>
   (take 10 samples' = take 10 samples \<longrightarrow>
      g_currentLevel (updateLevel st samples') = g_currentLevel (updateLevel st samples))"
proof -
  have empty: "g_currentLevel (updateLevel st []) = 0"
    by (simp add: updateLevel_def)
  have full: "estimateLevel samples = 100"
    if "samples \<noteq> []" and "\<forall>x \<in> set (take 10 samples). x = 32767 \<or> x = - 32767"
  proof -
    from that(2) have "\<forall>x \<in> set (take 10 samples). \<bar>sint x\<bar> = 32767"
      using sint_max_magnitude by blast
    with that(1) show ?thesis by (rule estimateLevel_full)
  qed
  have window: "estimateLevel samples' = estimateLevel samples"
    if "take 10 samples' = take 10 samples"
    using that estimateLevel_window [of samples] estimateLevel_window [of samples'] by simp
  show ?thesis
    using empty full window estimateLevel_range [of samples] estimateLevel_silence [of samples]
    by (simp add: updateLevel_level estimateLevel_uminus)
qed

theorem updateLevel_estimateLevel_witness:
  "[32767, - 32767, 32767 :: int16] \<noteq> [] \<and>
   list_all (\<lambda>x. x = 32767 \<or> x = - 32767) (take 10 [32767, - 32767, 32767 :: int16]) \<and>
   g_currentLevel (updateLevel (ready_state 0) [32767, - 32767, 32767]) = 100 \<and>
   estimateLevel [32767, - 32767, 32767] = 100"
  using updateLevel_estimateLevel [of "ready_state 0" "[32767, - 32767, 32767]" "ready_state 0"
      "[32767, - 32767, 32767]"]
  by simp

subsection \<open>The mouth ratio\<close>

lemma levels_30_and_31:
  "g_currentLevel (updateLevel (ready_state 1) [10000]) = 30 \<and>
   g_currentLevel (updateLevel (ready_state 1) [10200]) = 31"
  by (simp add: updateLevel_level estimateLevel_def)

text \<open>
  C3, as stated, asks the mouth ratio to increase strictly with every level above 3. The
  quotient \<open>level / 30\<close> reaches 1 at level 30 and is clamped from there on, so levels
  30 and 31 (both produced by \<^verbatim>\<open>updateLevel\<close>, see \<open>levels_30_and_31\<close>) give the same
  ratio.
\<close>

theorem mouthOpen_not_strict_counterexample:
  "(3::int) < 30 \<and> (30::int) < 31 \<and> \<not> mouthOpen 30 < mouthOpen 31"
  by (simp add: mouthOpen_def constrain_def)

text \<open>
  C3, amended. The mouth ratio is 0 for every level up to the noise floor 3 and the
  clamp of \<open>level / 30\<close> into \<open>[0, 1]\<close> above it; it increases strictly with the level
  between 4 and 30, and it is 1 for every level from 30 on, hence for every level from
  33 on. (The ratio is the exact quotient; the \<^verbatim>\<open>float\<close> division of the firmware rounds
  it, which keeps the order of levels that are one thirtieth apart and keeps 0 and 1.)
\<close>

theorem mouthOpen_shape:
  "(level \<le> 3 \<longrightarrow> mouthOpen level = 0) \<and>
   (3 < level \<longrightarrow> mouthOpen level = max 0 (min 1 (real_of_int level / 30))) \<and>
   (3 < a \<and> a < b \<and> b \<le> 30 \<longrightarrow> mouthOpen a < mouthOpen b) \<and>
   (30 \<le> level \<longrightarrow> mouthOpen level = 1) \<and>
   (33 \<le> level \<longrightarrow> mouthOpen level = 1)"
  by (simp add: mouthOpen_def constrain_def max_def min_def)

theorem mouthOpen_shape_witness:
  "(3::int) < 4 \<and> (4::int) < 29 \<and> (29::int) \<le> 30 \<and> mouthOpen 4 < mouthOpen 29 \<and>
   mouthOpen 3 = 0 \<and> mouthOpen 33 = 1 \<and> mouthOpen 15 = 1 / 2"
  using mouthOpen_shape [of 3 4 29] mouthOpen_shape [of 33 4 29] mouthOpen_shape [of 15 4 29]
  by simp

subsection \<open>The stream\<close>

lemma length_audioData: "length (audioData data) = length data div 2"
  by (induction data rule: audioData.induct) simp_all

text \<open>The first byte of a pair is the low byte of the sample.\<close>

lemma uint_little_endian:
  "uint (word_cat hi lo :: int16) = uint lo + 256 * uint hi" for hi lo :: byte
proof -
  have lo: "0 \<le> uint lo" "uint lo < 256" and hi: "0 \<le> uint hi" "uint hi < 256"
    using uint_lt2p [of lo] uint_lt2p [of hi] by simp_all
  have "concat_bit 8 (uint lo) (uint hi) = uint lo + 256 * uint hi"
    using lo by (simp add: concat_bit_eq take_bit_int_eq_self push_bit_eq_mult)
  moreover have "(uint lo + 256 * uint hi) mod 65536 = uint lo + 256 * uint hi"
    using lo hi by (intro mod_pos_pos_trivial) simp_all
  ultimately show ?thesis
    unfolding word_cat_eq' uint_word_of_int by simp
qed

lemma write_loop_state:
  "\<exists>b. write_loop cap st xs w =
         (st\<lparr>g_audioBuffer := b,
             g_audioBufferPos := g_audioBufferPos st + samplesAccepted cap st (length xs)\<rparr>,
          w + samplesAccepted cap st (length xs)) \<and>
        (b = None \<longleftrightarrow> g_audioBuffer st = None)"
proof (induction xs arbitrary: st w)
  case Nil
  have "st = st\<lparr>g_audioBuffer := g_audioBuffer st, g_audioBufferPos := g_audioBufferPos st\<rparr>"
    by simp
  then show ?case
    by (auto simp: samplesAccepted_def intro!: exI [of _ "g_audioBuffer st"])
next
  case (Cons x xs)
  show ?case
  proof (cases "g_audioBuffer st")
    case None
    then show ?thesis
      by (auto simp: samplesAccepted_def intro!: exI [of _ None])
  next
    case (Some buf)
    show ?thesis
    proof (cases "g_audioBufferPos st < cap")
      case False
      with Some show ?thesis
        by (auto simp: samplesAccepted_def intro!: exI [of _ "Some buf"])
    next
      case True
      let ?st1 = "st\<lparr>g_audioBuffer := Some (buf[g_audioBufferPos st := x]),
                      g_audioBufferPos := g_audioBufferPos st + 1\<rparr>"
      from Cons.IH [of ?st1 "w + 1"] obtain b where
        b: "write_loop cap ?st1 xs (w + 1) =
              (?st1\<lparr>g_audioBuffer := b,
                    g_audioBufferPos := g_audioBufferPos ?st1 + samplesAccepted cap ?st1 (length xs)\<rparr>,
               w + 1 + samplesAccepted cap ?st1 (length xs))"
        and nn: "b \<noteq> None"
        by auto
      have acc: "samplesAccepted cap st (Suc (length xs)) = Suc (samplesAccepted cap ?st1 (length xs))"
        using True Some by (auto simp: samplesAccepted_def min_def)
      from Some True b nn show ?thesis
        by (auto simp: acc intro!: exI [of _ b])
    qed
  qed
qed


lemma write_loop_buffer:
  assumes "g_audioBuffer st = Some buf" and "cap \<le> length buf"
  shows "g_audioBuffer (fst (write_loop cap st xs w)) =
           Some (take (g_audioBufferPos st) buf @
                 take (cap - g_audioBufferPos st) xs @
                 drop (g_audioBufferPos st + min (length xs) (cap - g_audioBufferPos st)) buf)"
  using assms
proof (induction xs arbitrary: st w buf)
  case Nil
  then show ?case by simp
next
  case (Cons x xs)
  show ?case
  proof (cases "g_audioBufferPos st < cap")
    case False
    with Cons.prems show ?thesis by simp
  next
    case True
    let ?p = "g_audioBufferPos st"
    let ?st1 = "st\<lparr>g_audioBuffer := Some (buf[?p := x]), g_audioBufferPos := ?p + 1\<rparr>"
    from True Cons.prems have lt: "?p < length buf" by simp
    have "g_audioBuffer (fst (write_loop cap ?st1 xs (w + 1))) =
            Some (take (?p + 1) (buf[?p := x]) @ take (cap - (?p + 1)) xs @
                  drop (?p + 1 + min (length xs) (cap - (?p + 1))) (buf[?p := x]))"
      using Cons.IH [of ?st1 "buf[?p := x]" "w + 1"] Cons.prems by simp
    moreover have "take (?p + 1) (buf[?p := x]) = take ?p buf @ [x]"
      using lt by (simp add: take_Suc_conv_app_nth)
    moreover have "drop (?p + 1 + min (length xs) (cap - (?p + 1))) (buf[?p := x]) =
                   drop (?p + min (length (x # xs)) (cap - ?p)) buf"
      using True by (simp add: min_def)
    moreover have "take (cap - ?p) (x # xs) = x # take (cap - (?p + 1)) xs"
    proof -
      from True have "cap - ?p = Suc (cap - (?p + 1))" by simp
      then show ?thesis by simp
    qed
    ultimately show ?thesis
      using True Cons.prems by simp
  qed
qed


lemma write_not_ready: "\<not> g_systemReady st \<Longrightarrow> MemoryBufferStream_write cap st data = (st, 0)"
  by (simp add: MemoryBufferStream_write_def)

lemma write_ready:
  assumes "g_systemReady st"
  shows "\<exists>b. MemoryBufferStream_write cap st data =
           (st\<lparr>g_audioBuffer := b,
               g_audioBufferPos :=
                 g_audioBufferPos st + samplesAccepted cap st (length data div 2)\<rparr>,
            samplesAccepted cap st (length data div 2) * 2) \<and>
          (b = None \<longleftrightarrow> g_audioBuffer st = None)"
proof -
  from write_loop_state [of cap st "audioData data" 0] obtain b where
    "write_loop cap st (audioData data) 0 =
       (st\<lparr>g_audioBuffer := b,
           g_audioBufferPos := g_audioBufferPos st + samplesAccepted cap st (length data div 2)\<rparr>,
        samplesAccepted cap st (length data div 2))"
    and "b = None \<longleftrightarrow> g_audioBuffer st = None"
    by (auto simp: length_audioData)
  with assms show ?thesis
    by (auto simp: MemoryBufferStream_write_def)
qed

lemma write_no_buffer: "g_audioBuffer st = None \<Longrightarrow> MemoryBufferStream_write cap st data = (st, 0)"
  by (cases "audioData data") (simp_all add: MemoryBufferStream_write_def)

lemma write_fields:
  "g_audioBufferPos (fst (MemoryBufferStream_write cap st data)) =
     g_audioBufferPos st +
     (if g_systemReady st then samplesAccepted cap st (length data div 2) else 0)"
  "snd (MemoryBufferStream_write cap st data) =
     2 * (if g_systemReady st then samplesAccepted cap st (length data div 2) else 0)"
  "g_playbackPos (fst (MemoryBufferStream_write cap st data)) = g_playbackPos st"
  "g_isSpeaking (fst (MemoryBufferStream_write cap st data)) = g_isSpeaking st"
  "g_systemReady (fst (MemoryBufferStream_write cap st data)) = g_systemReady st"
  "g_currentLevel (fst (MemoryBufferStream_write cap st data)) = g_currentLevel st"
  "speaker_calls (fst (MemoryBufferStream_write cap st data)) = speaker_calls st"
  "avatar_mouthOpenRatio (fst (MemoryBufferStream_write cap st data)) = avatar_mouthOpenRatio st"
  "avatar_expression (fst (MemoryBufferStream_write cap st data)) = avatar_expression st"
  "avatar_speechText (fst (MemoryBufferStream_write cap st data)) = avatar_speechText st"
  "g_audioBuffer (fst (MemoryBufferStream_write cap st data)) = None \<longleftrightarrow> g_audioBuffer st = None"
  using write_ready [of st cap data] write_not_ready [of st cap data]
  by (cases "g_systemReady st"; auto)+

lemma write_buffer:
  assumes "g_systemReady st" and "g_audioBuffer st = Some buf" and "cap \<le> length buf"
  shows "g_audioBuffer (fst (MemoryBufferStream_write cap st data)) =
           Some (take (g_audioBufferPos st) buf @
                 take (cap - g_audioBufferPos st) (audioData data) @
                 drop (g_audioBufferPos st + samplesAccepted cap st (length data div 2)) buf)"
  using assms write_loop_buffer [of st buf cap "audioData data" 0]
  by (simp add: MemoryBufferStream_write_def split_beta samplesAccepted_def length_audioData)

text \<open>
  C9. Every push is answered with twice the number of samples that were accepted, which is
  the advance of the write cursor and never more than the bytes offered; the bytes are
  read as little-endian 16-bit samples (\<open>audioData\<close>), \<open>len / 2\<close> of them, and the
  accepted ones are stored from the write cursor on. While the system is not ready, and
  likewise while there is no buffer, a push is answered with 0 and changes nothing.
\<close>

theorem write_reports_accepted_bytes:
  "length (audioData data) = length data div 2 \<and>
   snd (MemoryBufferStream_write cap st data) =
     (g_audioBufferPos (fst (MemoryBufferStream_write cap st data)) - g_audioBufferPos st) * 2 \<and>
   snd (MemoryBufferStream_write cap st data) \<le> length data \<and>
   (g_systemReady st \<longrightarrow>
      snd (MemoryBufferStream_write cap st data) =
        samplesAccepted cap st (length data div 2) * 2) \<and>
   (g_systemReady st \<and> g_audioBuffer st = Some buf \<and> cap \<le> length buf \<longrightarrow>
      g_audioBuffer (fst (MemoryBufferStream_write cap st data)) =
        Some (take (g_audioBufferPos st) buf @
              take (cap - g_audioBufferPos st) (audioData data) @
              drop (g_audioBufferPos st + samplesAccepted cap st (length data div 2)) buf)) \<and>
   (\<not> g_systemReady st \<longrightarrow> MemoryBufferStream_write cap st data = (st, 0)) \<and>
   (g_audioBuffer st = None \<longrightarrow> MemoryBufferStream_write cap st data = (st, 0))"
proof -
  have "samplesAccepted cap st (length data div 2) \<le> length data div 2"
    by (simp add: samplesAccepted_def)
  moreover have "2 * (length data div 2) \<le> length data"
    by simp
  ultimately have "samplesAccepted cap st (length data div 2) * 2 \<le> length data"
    by linarith
  then show ?thesis
    using write_buffer [of st buf cap data]
    by (simp add: write_fields write_not_ready write_no_buffer length_audioData)
qed

theorem write_reports_accepted_bytes_witness:
  "audioData [52, 18, 255, 255, 7] = [4660, - 1] \<and>
   snd (MemoryBufferStream_write 2 (ready_state 2) [1, 0, 2, 0, 3, 0]) = 4 \<and>
   g_audioBufferPos (fst (MemoryBufferStream_write 2 (ready_state 2) [1, 0, 2, 0, 3, 0])) = 2 \<and>
   g_audioBuffer (fst (MemoryBufferStream_write 2 (ready_state 2) [1, 0, 2, 0, 3, 0])) =
     Some [1, 2] \<and>
   MemoryBufferStream_write 2 ((ready_state 2)\<lparr>g_systemReady := False\<rparr>) [1, 0] =
     ((ready_state 2)\<lparr>g_systemReady := False\<rparr>, 0)"
  using write_reports_accepted_bytes
          [of "[1, 0, 2, 0, 3, 0]" 2 "ready_state 2" "replicate 2 0"]
        write_reports_accepted_bytes
          [of "[1, 0]" 2 "(ready_state 2)\<lparr>g_systemReady := False\<rparr>" "[]"]
  by (simp add: ready_state_def samplesAccepted_def word_cat_eq push_bit_eq_mult)

subsection \<open>The playback loop\<close>

declare playback_loop.simps [simp del]

lemma loop_body_fields:
  "g_audioBufferPos (fst (loop_body e k st)) = g_audioBufferPos st"
  "g_audioBuffer (fst (loop_body e k st)) = g_audioBuffer st"
  "g_systemReady (fst (loop_body e k st)) = g_systemReady st"
  "g_playbackPos (fst (loop_body e k st)) =
     (if playRaw_result e k
      then g_playbackPos st + min (g_audioBufferPos st - g_playbackPos st) chunkSize
      else g_playbackPos st)"
  "speaker_calls (fst (loop_body e k st)) =
     speaker_calls st @
     [PlayRaw (g_playbackPos st) (min (g_audioBufferPos st - g_playbackPos st) chunkSize)
        (playRaw_result e k)]"
  "g_isSpeaking (fst (loop_body e k st)) \<longleftrightarrow>
     g_isSpeaking st \<and> \<not> (playRaw_result e k \<and> cleared_in_delay e k)"
  "snd (loop_body e k st) = playRaw_result e k"
  by (simp_all add: loop_body_def Let_def vTaskDelay_def updateLevel_def)

lemma chunk_at_length:
  assumes "g_audioBuffer st = Some buf" and "g_audioBufferPos st \<le> length buf"
    and "g_playbackPos st \<le> g_audioBufferPos st"
  shows "length (chunk_at st (g_playbackPos st)
                   (min (g_audioBufferPos st - g_playbackPos st) chunkSize)) =
         min (g_audioBufferPos st - g_playbackPos st) chunkSize"
  using assms by (simp add: chunk_at_def)

lemma loop_exit: "\<not> loop_cond e t k st \<Longrightarrow> playback_loop e t k st = st"
  by (simp add: playback_loop.simps)

lemma loop_break:
  "loop_cond e t k st \<Longrightarrow> \<not> playRaw_result e k \<Longrightarrow>
   playback_loop e t k st = fst (loop_body e k st)"
  by (simp add: playback_loop.simps [of e t k st] loop_body_fields)

lemma loop_next:
  "loop_cond e t k st \<Longrightarrow> playRaw_result e k \<Longrightarrow>
   playback_loop e t k st = playback_loop e t (Suc k) (fst (loop_body e k st))"
  by (simp add: playback_loop.simps [of e t k st] loop_body_fields)

lemma loop_fixed_fields:
  "g_audioBufferPos (playback_loop e t k st) = g_audioBufferPos st \<and>
   g_audioBuffer (playback_loop e t k st) = g_audioBuffer st \<and>
   g_systemReady (playback_loop e t k st) = g_systemReady st"
proof (induction e t k st rule: playback_loop.induct)
  case (1 e t k st)
  show ?case
  proof (cases "loop_cond e t k st")
    case False
    then show ?thesis by (simp add: loop_exit)
  next
    case c: True
    show ?thesis
    proof (cases "playRaw_result e k")
      case False
      with c show ?thesis by (simp add: loop_break loop_body_fields)
    next
      case True
      with c "1.IH" show ?thesis by (simp add: loop_next loop_body_fields)
    qed
  qed
qed

lemma loop_cursor:
  "g_playbackPos st \<le> g_audioBufferPos st \<Longrightarrow>
   g_playbackPos st \<le> g_playbackPos (playback_loop e t k st) \<and>
   g_playbackPos (playback_loop e t k st) \<le> g_audioBufferPos st"
proof (induction e t k st rule: playback_loop.induct)
  case (1 e t k st)
  show ?case
  proof (cases "loop_cond e t k st")
    case False
    with "1.prems" show ?thesis by (simp add: loop_exit)
  next
    case c: True
    show ?thesis
    proof (cases "playRaw_result e k")
      case False
      with c "1.prems" show ?thesis by (simp add: loop_break loop_body_fields)
    next
      case True
      let ?st' = "fst (loop_body e k st)"
      from True have p: "g_playbackPos ?st' =
          g_playbackPos st + min (g_audioBufferPos st - g_playbackPos st) chunkSize"
        by (simp add: loop_body_fields)
      with "1.prems" have le: "g_playbackPos ?st' \<le> g_audioBufferPos ?st'"
        by (simp add: loop_body_fields)
      from c True have "snd (loop_body e k st)"
        by (simp add: loop_body_fields)
      from "1.IH" [OF c this le]
      have "g_playbackPos ?st' \<le> g_playbackPos (playback_loop e t (Suc k) ?st')"
        and "g_playbackPos (playback_loop e t (Suc k) ?st') \<le> g_audioBufferPos st"
        by (simp_all add: loop_body_fields)
      with p c True show ?thesis
        by (simp add: loop_next)
    qed
  qed
qed

lemma loop_speaking: "g_isSpeaking (playback_loop e t k st) \<Longrightarrow> g_isSpeaking st"
proof (induction e t k st rule: playback_loop.induct)
  case (1 e t k st)
  show ?case
  proof (cases "loop_cond e t k st")
    case False
    with "1.prems" show ?thesis by (simp add: loop_exit)
  next
    case c: True
    then show ?thesis by (simp add: loop_cond_def)
  qed
qed

subsection \<open>The synthesiser\<close>

lemma sink_call_fields:
  "g_playbackPos (sink_call cap st c) = g_playbackPos st"
  "g_isSpeaking (sink_call cap st c) = g_isSpeaking st"
  "g_systemReady (sink_call cap st c) = g_systemReady st"
  "g_currentLevel (sink_call cap st c) = g_currentLevel st"
  "speaker_calls (sink_call cap st c) = speaker_calls st"
  "avatar_mouthOpenRatio (sink_call cap st c) = avatar_mouthOpenRatio st"
  "avatar_expression (sink_call cap st c) = avatar_expression st"
  "avatar_speechText (sink_call cap st c) = avatar_speechText st"
  "g_audioBuffer (sink_call cap st c) = None \<longleftrightarrow> g_audioBuffer st = None"
  by (cases c; simp add: MemoryBufferStream_begin_def write_fields)+

lemma sink_call_pos:
  "g_audioBufferPos st \<le> cap \<Longrightarrow> g_audioBufferPos (sink_call cap st c) \<le> cap"
  by (cases c) (auto simp: MemoryBufferStream_begin_def write_fields samplesAccepted_def)

lemma foldl_sink_call_fields:
  "g_playbackPos (foldl (sink_call cap) st cs) = g_playbackPos st \<and>
   g_isSpeaking (foldl (sink_call cap) st cs) = g_isSpeaking st \<and>
   g_systemReady (foldl (sink_call cap) st cs) = g_systemReady st \<and>
   g_currentLevel (foldl (sink_call cap) st cs) = g_currentLevel st \<and>
   speaker_calls (foldl (sink_call cap) st cs) = speaker_calls st \<and>
   avatar_mouthOpenRatio (foldl (sink_call cap) st cs) = avatar_mouthOpenRatio st \<and>
   avatar_expression (foldl (sink_call cap) st cs) = avatar_expression st \<and>
   avatar_speechText (foldl (sink_call cap) st cs) = avatar_speechText st \<and>
   (g_audioBuffer (foldl (sink_call cap) st cs) = None \<longleftrightarrow> g_audioBuffer st = None)"
  by (induction cs arbitrary: st) (simp_all add: sink_call_fields)

lemma foldl_sink_call_pos:
  "g_audioBufferPos st \<le> cap \<Longrightarrow> g_audioBufferPos (foldl (sink_call cap) st cs) \<le> cap"
  by (induction cs arbitrary: st) (simp_all add: sink_call_pos)

lemma espeak_say_fields:
  "g_playbackPos (espeak_say cap e st) = g_playbackPos st"
  "g_isSpeaking (espeak_say cap e st) = g_isSpeaking st"
  "g_systemReady (espeak_say cap e st) = g_systemReady st"
  "g_currentLevel (espeak_say cap e st) = g_currentLevel st"
  "speaker_calls (espeak_say cap e st) = speaker_calls st"
  "avatar_mouthOpenRatio (espeak_say cap e st) = avatar_mouthOpenRatio st"
  "avatar_expression (espeak_say cap e st) = avatar_expression st"
  "avatar_speechText (espeak_say cap e st) = avatar_speechText st"
  "g_audioBuffer (espeak_say cap e st) = None \<longleftrightarrow> g_audioBuffer st = None"
  using foldl_sink_call_fields [of cap st "say_calls e"]
  by (simp_all add: espeak_say_def)

lemma espeak_say_pos:
  "g_audioBufferPos st \<le> cap \<Longrightarrow> g_audioBufferPos (espeak_say cap e st) \<le> cap"
  by (simp add: espeak_say_def foldl_sink_call_pos)

subsection \<open>The paths through speak\<close>

lemma speak_rejected:
  "\<not> preconditions st text \<Longrightarrow>
   fst (speak cap e st text) = st \<and>
   snd (speak cap e st text) \<in> {CannotSpeak, BufferNotAllocated, TextTooLong, EmptyText}"
  by (auto simp: speak_def preconditions_def Let_def)

lemma speak_say_failed:
  "preconditions st text \<Longrightarrow> \<not> say_result e \<Longrightarrow>
   speak cap e st text =
     ((espeak_say cap e (start_request st))\<lparr>g_isSpeaking := False\<rparr>, SayReturnedFalse)"
  by (auto simp: speak_def preconditions_def Let_def)

lemma speak_no_audio:
  "preconditions st text \<Longrightarrow> say_result e \<Longrightarrow>
   g_audioBufferPos (espeak_say cap e (start_request st)) = 0 \<Longrightarrow>
   speak cap e st text =
     ((espeak_say cap e (start_request st))\<lparr>g_isSpeaking := False\<rparr>, NoAudioData)"
  by (auto simp: speak_def preconditions_def Let_def)

lemma speak_playing:
  "preconditions st text \<Longrightarrow> say_result e \<Longrightarrow>
   g_audioBufferPos (espeak_say cap e (start_request st)) \<noteq> 0 \<Longrightarrow>
   speak cap e st text =
     (completion
        (playback_loop e (millis_start e) 0
           ((espeak_say cap e (start_request st))
              \<lparr>avatar_expression := Happy, avatar_speechText := text, g_playbackPos := 0\<rparr>)),
      PlaybackCompleted)"
  by (auto simp: speak_def preconditions_def Let_def)

lemma speak_fst:
  "fst (speak cap e st text) =
     (if \<not> preconditions st text then st
      else if \<not> say_result e \<or> g_audioBufferPos (espeak_say cap e (start_request st)) = 0
      then (espeak_say cap e (start_request st))\<lparr>g_isSpeaking := False\<rparr>
      else completion
        (playback_loop e (millis_start e) 0
           ((espeak_say cap e (start_request st))
              \<lparr>avatar_expression := Happy, avatar_speechText := text, g_playbackPos := 0\<rparr>)))"
  using speak_rejected [of st "text" cap e] speak_say_failed [of st "text" e cap]
    speak_no_audio [of st "text" e cap] speak_playing [of st "text" e cap]
  by (cases "say_result e") auto

lemma speak_snd:
  "snd (speak cap e st text) =
     (if g_isSpeaking st \<or> \<not> g_systemReady st then CannotSpeak
      else if g_audioBuffer st = None then BufferNotAllocated
      else if length text > MAX_TEXT_LENGTH then TextTooLong
      else if text = [] then EmptyText
      else if \<not> say_result e then SayReturnedFalse
      else if g_audioBufferPos (espeak_say cap e (start_request st)) = 0 then NoAudioData
      else PlaybackCompleted)"
  by (simp add: speak_def Let_def)

lemma speak_clears_flag: "\<not> g_isSpeaking st \<Longrightarrow> \<not> g_isSpeaking (fst (speak cap e st text))"
  by (simp add: speak_fst completion_def)

lemma speak_keeps_ready:
  "g_systemReady (fst (speak cap e st text)) = g_systemReady st \<and>
   (g_audioBuffer (fst (speak cap e st text)) = None \<longleftrightarrow> g_audioBuffer st = None)"
  by (simp add: speak_fst completion_def loop_fixed_fields espeak_say_fields start_request_def)

lemma say_one_write_pos:
  assumes "say_calls e = [SinkWrite data]" and "g_systemReady st" and "g_audioBuffer st \<noteq> None"
  shows "g_audioBufferPos (espeak_say cap e (start_request st)) = min (length data div 2) cap"
  using assms
  by (auto simp: espeak_say_def write_fields samplesAccepted_def start_request_def)

lemmas loop_eval = loop_next loop_break loop_exit loop_cond_def loop_body_fields

subsection \<open>Sample runs\<close>

text \<open>
  Four runs over a buffer of 1000 samples into which the synthesiser pushes 600: the
  loop ends because the buffer is drained, because of the timeout, because the flag was
  cleared, and because \<^verbatim>\<open>playRaw\<close> failed.
\<close>

lemma start_request_fields:
  "g_isSpeaking (start_request st)"
  "g_audioBufferPos (start_request st) = 0"
  "g_playbackPos (start_request st) = 0"
  "g_currentLevel (start_request st) = 0"
  "g_systemReady (start_request st) = g_systemReady st"
  "g_audioBuffer (start_request st) = g_audioBuffer st"
  "speaker_calls (start_request st) = speaker_calls st"
  by (simp_all add: start_request_def)

lemma sample_env_fields:
  "say_calls (quiet_env d) = [SinkWrite d]" "say_result (quiet_env d)"
  "millis_start (quiet_env d) = 0" "millis_loop (quiet_env d) k = 0"
  "playRaw_result (quiet_env d) k" "\<not> cleared_in_delay (quiet_env d) k"
  "say_calls (timeout_env d) = [SinkWrite d]" "say_result (timeout_env d)"
  "millis_start (timeout_env d) = 0" "millis_loop (timeout_env d) k = (if k = 0 then 0 else 15000)"
  "playRaw_result (timeout_env d) k" "\<not> cleared_in_delay (timeout_env d) k"
  "say_calls (cancel_env d) = [SinkWrite d]" "say_result (cancel_env d)"
  "millis_start (cancel_env d) = 0" "millis_loop (cancel_env d) k = 0"
  "playRaw_result (cancel_env d) k" "cleared_in_delay (cancel_env d) k"
  "say_calls (failing_env d) = [SinkWrite d]" "say_result (failing_env d)"
  "millis_start (failing_env d) = 0" "millis_loop (failing_env d) k = 0"
  "\<not> playRaw_result (failing_env d) k" "\<not> cleared_in_delay (failing_env d) k"
  by (simp_all add: quiet_env_def timeout_env_def cancel_env_def failing_env_def)

lemma ready_state_fields:
  "preconditions (ready_state cap) ''hi''"
  "g_systemReady (ready_state cap)" "g_audioBuffer (ready_state cap) \<noteq> None"
  "\<not> g_isSpeaking (ready_state cap)"
  "speaker_calls (ready_state cap) = []"
  by (simp_all add: preconditions_def ready_state_def MAX_TEXT_LENGTH_def)

lemma sample_say_pos:
  "g_audioBufferPos (espeak_say 1000 (quiet_env (replicate 1200 0)) (start_request (ready_state 1000))) = 600"
  "g_audioBufferPos (espeak_say 1000 (timeout_env (replicate 1200 0)) (start_request (ready_state 1000))) = 600"
  "g_audioBufferPos (espeak_say 1000 (cancel_env (replicate 1200 0)) (start_request (ready_state 1000))) = 600"
  "g_audioBufferPos (espeak_say 1000 (failing_env (replicate 1200 0)) (start_request (ready_state 1000))) = 600"
  by (simp_all add: say_one_write_pos [where data = "replicate 1200 0"] sample_env_fields
      ready_state_fields)

lemmas run_eval = speak_fst speak_snd ready_state_fields sample_env_fields sample_say_pos
  completion_def loop_eval espeak_say_fields start_request_fields chunkSize_def
  SPEECH_TIMEOUT_MS_def

lemma run_drained:
  "speaker_calls (fst (speak 1000 (quiet_env (replicate 1200 0)) (ready_state 1000) ''hi'')) =
     [PlayRaw 0 512 True, PlayRaw 512 88 True, Stop] \<and>
   g_playbackPos (fst (speak 1000 (quiet_env (replicate 1200 0)) (ready_state 1000) ''hi'')) = 600"
  by (simp add: run_eval)

lemma run_timeout:
  "speaker_calls (fst (speak 1000 (timeout_env (replicate 1200 0)) (ready_state 1000) ''hi'')) =
     [PlayRaw 0 512 True, Stop] \<and>
   g_playbackPos (fst (speak 1000 (timeout_env (replicate 1200 0)) (ready_state 1000) ''hi'')) = 512"
  by (simp add: run_eval)

lemma run_cancelled:
  "speaker_calls (fst (speak 1000 (cancel_env (replicate 1200 0)) (ready_state 1000) ''hi'')) =
     [PlayRaw 0 512 True, Stop] \<and>
   g_playbackPos (fst (speak 1000 (cancel_env (replicate 1200 0)) (ready_state 1000) ''hi'')) = 512"
  by (simp add: run_eval)

lemma run_play_failed:
  "speaker_calls (fst (speak 1000 (failing_env (replicate 1200 0)) (ready_state 1000) ''hi'')) =
     [PlayRaw 0 512 False, Stop] \<and>
   g_playbackPos (fst (speak 1000 (failing_env (replicate 1200 0)) (ready_state 1000) ''hi'')) = 0"
  by (simp add: run_eval)

subsection \<open>Preconditions\<close>

text \<open>
  C5. When a precondition is violated (empty text, text longer than \<open>MAX_TEXT_LENGTH\<close>,
  no buffer, system not ready, or already speaking), \<^verbatim>\<open>speak\<close> returns \<^verbatim>\<open>false\<close> and
  leaves every global as it was: the flag is unchanged, the cursors and the buffer are
  unchanged, and the synthesiser is not consulted (the outcome does not depend on the
  environment). For the empty string this holds in every state; where the text is the
  only fault the \<^verbatim>\<open>return\<close> taken is the one logged as "Empty text provided".
\<close>

theorem speak_fails_fast:
  "(text = [] \<or> length text > MAX_TEXT_LENGTH \<or> g_audioBuffer st = None \<or>
    \<not> g_systemReady st \<or> g_isSpeaking st \<longrightarrow>
      fst (speak cap e st text) = st \<and>
      \<not> returned (snd (speak cap e st text)) \<and>
      speak cap e' st text = speak cap e st text) \<and>
   fst (speak cap e st []) = st \<and>
   \<not> returned (snd (speak cap e st [])) \<and>
   (g_systemReady st \<and> \<not> g_isSpeaking st \<and> g_audioBuffer st \<noteq> None \<longrightarrow>
      speak cap e st [] = (st, EmptyText))"
  by (auto simp: speak_def Let_def)

theorem speak_fails_fast_witness:
  "speak 4 (quiet_env [1, 0]) (ready_state 4) [] = (ready_state 4, EmptyText) \<and>
   fst (speak 4 (quiet_env [1, 0]) ((ready_state 4)\<lparr>g_isSpeaking := True\<rparr>) ''hi'') =
     (ready_state 4)\<lparr>g_isSpeaking := True\<rparr> \<and>
   \<not> returned (snd (speak 4 (quiet_env [1, 0]) ((ready_state 4)\<lparr>g_isSpeaking := True\<rparr>) ''hi'')) \<and>
   fst (speak 4 (quiet_env [1, 0]) (ready_state 4) (replicate 301 CHR ''a'')) = ready_state 4"
  using speak_fails_fast [of "[]" "ready_state 4" 4 "quiet_env [1, 0]" "quiet_env [1, 0]"]
    speak_fails_fast [of "''hi''" "(ready_state 4)\<lparr>g_isSpeaking := True\<rparr>" 4
      "quiet_env [1, 0]" "quiet_env [1, 0]"]
    speak_fails_fast [of "replicate 301 CHR ''a''" "ready_state 4" 4
      "quiet_env [1, 0]" "quiet_env [1, 0]"]
  by (simp add: ready_state_def MAX_TEXT_LENGTH_def)

subsection \<open>The gate\<close>

lemma loop_keeps_flag:
  "g_isSpeaking st \<Longrightarrow> (\<And>j. \<not> cleared_in_delay e j) \<Longrightarrow>
   g_isSpeaking (playback_loop e t k st)"
proof (induction e t k st rule: playback_loop.induct)
  case (1 e t k st)
  show ?case
  proof (cases "loop_cond e t k st")
    case False
    with "1.prems" show ?thesis by (simp add: loop_exit)
  next
    case c: True
    show ?thesis
    proof (cases "playRaw_result e k")
      case False
      with c "1.prems" show ?thesis by (simp add: loop_break loop_body_fields)
    next
      case True
      with c have "snd (loop_body e k st)"
        by (simp add: loop_body_fields)
      moreover from "1.prems" have "g_isSpeaking (fst (loop_body e k st))"
        by (simp add: loop_body_fields)
      ultimately have "g_isSpeaking (playback_loop e t (Suc k) (fst (loop_body e k st)))"
        using c "1.prems"(2) by (intro "1.IH") simp_all
      with c True show ?thesis by (simp add: loop_next)
    qed
  qed
qed

text \<open>
  C6. A call that finds the flag set is rejected: it returns \<^verbatim>\<open>false\<close> by the first
  \<^verbatim>\<open>return\<close> and changes nothing, so nothing is queued. An admitted call raises the flag
  before synthesis and the synthesiser leaves it raised. Every call that starts with the
  flag down ends with the flag down, whatever the synthesiser, the clock and the speaker
  did; after an admitted call the preconditions hold again for any well-formed text,
  and the next call is admitted: it reaches the synthesiser. While the request is
  playing the gate stays closed: \<^verbatim>\<open>speak\<close> runs its loop from a state with the flag
  raised and lowers the flag only in the completion step after the loop; a second call
  made in that state, or at the top of any iteration that goes on to play a chunk, is
  rejected and changes nothing; an iteration leaves the flag as it found it unless
  another task clears it during the delay, and where no task does so the flag is still
  raised when the loop ends.
\<close>

theorem gate_one_at_a_time:
  "(g_isSpeaking st \<longrightarrow> speak cap e st text = (st, CannotSpeak) \<and> \<not> returned CannotSpeak) \<and>
   g_isSpeaking (start_request st) \<and>
   g_isSpeaking (espeak_say cap e (start_request st)) \<and>
   (\<not> g_isSpeaking st \<longrightarrow> \<not> g_isSpeaking (fst (speak cap e st text))) \<and>
   (preconditions st text \<and> text' \<noteq> [] \<and> length text' \<le> MAX_TEXT_LENGTH \<longrightarrow>
      preconditions (fst (speak cap e st text)) text' \<and>
      snd (speak cap e' (fst (speak cap e st text)) text')
        \<in> {SayReturnedFalse, NoAudioData, PlaybackCompleted}) \<and>
   (preconditions st text \<and> say_result e \<and>
    g_audioBufferPos (espeak_say cap e (start_request st)) \<noteq> 0 \<longrightarrow>
      speak cap e st text =
        (completion
           (playback_loop e (millis_start e) 0
              ((espeak_say cap e (start_request st))
                 \<lparr>avatar_expression := Happy, avatar_speechText := text, g_playbackPos := 0\<rparr>)),
         PlaybackCompleted) \<and>
      g_isSpeaking
        ((espeak_say cap e (start_request st))
           \<lparr>avatar_expression := Happy, avatar_speechText := text, g_playbackPos := 0\<rparr>) \<and>
      speak cap e'
        ((espeak_say cap e (start_request st))
           \<lparr>avatar_expression := Happy, avatar_speechText := text, g_playbackPos := 0\<rparr>) text' =
        ((espeak_say cap e (start_request st))
           \<lparr>avatar_expression := Happy, avatar_speechText := text, g_playbackPos := 0\<rparr>,
         CannotSpeak)) \<and>
   (loop_cond e t k s \<longrightarrow> speak cap e' s text' = (s, CannotSpeak)) \<and>
   (g_isSpeaking (fst (loop_body e k s)) \<longleftrightarrow>
      g_isSpeaking s \<and> \<not> (playRaw_result e k \<and> cleared_in_delay e k)) \<and>
   (g_isSpeaking s \<and> (\<forall>j. \<not> cleared_in_delay e j) \<longrightarrow>
      g_isSpeaking (playback_loop e t k s)) \<and>
   \<not> g_isSpeaking (completion s)"
proof -
  have busy: "speak cap e'' s' text'' = (s', CannotSpeak)" if "g_isSpeaking s'" for e'' s' text''
    using that by (simp add: speak_def)
  have again: "preconditions (fst (speak cap e st text)) text'"
    if "preconditions st text" and "text' \<noteq> []" and "length text' \<le> MAX_TEXT_LENGTH"
    using that speak_clears_flag [of st cap e "text"] speak_keeps_ready [of cap e st "text"]
    by (simp add: preconditions_def)
  have admitted: "snd (speak cap e' s text') \<in> {SayReturnedFalse, NoAudioData, PlaybackCompleted}"
    if "preconditions s text'" for s
    using that by (simp add: speak_snd preconditions_def)
  let ?entry = "(espeak_say cap e (start_request st))
      \<lparr>avatar_expression := Happy, avatar_speechText := text, g_playbackPos := 0\<rparr>"
  have entry: "g_isSpeaking ?entry"
    by (simp add: espeak_say_fields start_request_fields)
  have old: "(g_isSpeaking st \<longrightarrow> speak cap e st text = (st, CannotSpeak) \<and> \<not> returned CannotSpeak) \<and>
      g_isSpeaking (start_request st) \<and>
      g_isSpeaking (espeak_say cap e (start_request st)) \<and>
      (\<not> g_isSpeaking st \<longrightarrow> \<not> g_isSpeaking (fst (speak cap e st text))) \<and>
      (preconditions st text \<and> text' \<noteq> [] \<and> length text' \<le> MAX_TEXT_LENGTH \<longrightarrow>
         preconditions (fst (speak cap e st text)) text' \<and>
         snd (speak cap e' (fst (speak cap e st text)) text')
           \<in> {SayReturnedFalse, NoAudioData, PlaybackCompleted})"
    using busy [of st e "text"] again admitted speak_clears_flag [of st cap e "text"]
    by (simp add: espeak_say_fields start_request_def)
  have playing: "preconditions st text \<and> say_result e \<and>
      g_audioBufferPos (espeak_say cap e (start_request st)) \<noteq> 0 \<longrightarrow>
        speak cap e st text =
          (completion (playback_loop e (millis_start e) 0 ?entry), PlaybackCompleted) \<and>
        g_isSpeaking ?entry \<and>
        speak cap e' ?entry text' = (?entry, CannotSpeak)"
    using entry busy [OF entry, of e' "text'"] by (simp add: speak_playing)
  have top: "loop_cond e t k s \<longrightarrow> speak cap e' s text' = (s, CannotSpeak)"
    using busy [of s e' "text'"] by (simp add: loop_cond_def)
  have body: "g_isSpeaking (fst (loop_body e k s)) \<longleftrightarrow>
      g_isSpeaking s \<and> \<not> (playRaw_result e k \<and> cleared_in_delay e k)"
    by (simp add: loop_body_fields)
  have whole: "g_isSpeaking s \<and> (\<forall>j. \<not> cleared_in_delay e j) \<longrightarrow>
      g_isSpeaking (playback_loop e t k s)"
    using loop_keeps_flag [of s e t k] by blast
  have lowered: "\<not> g_isSpeaking (completion s)"
    by (simp add: completion_def)
  from old playing top body whole lowered show ?thesis
    by blast
qed

theorem gate_one_at_a_time_witness:
  "speak 1000 (quiet_env [1, 0]) ((ready_state 1000)\<lparr>g_isSpeaking := True\<rparr>) ''hi'' =
     ((ready_state 1000)\<lparr>g_isSpeaking := True\<rparr>, CannotSpeak) \<and>
   \<not> g_isSpeaking (fst (speak 1000 (quiet_env (replicate 1200 0)) (ready_state 1000) ''hi'')) \<and>
   preconditions (fst (speak 1000 (quiet_env (replicate 1200 0)) (ready_state 1000) ''hi'')) ''yo'' \<and>
   preconditions
     (fst (speak 1000 ((quiet_env [])\<lparr>say_result := False\<rparr>) (ready_state 1000) ''hi'')) ''yo'' \<and>
   preconditions (fst (speak 1000 (timeout_env (replicate 1200 0)) (ready_state 1000) ''hi'')) ''yo'' \<and>
   snd (speak 1000 (quiet_env [1, 0])
          (fst (speak 1000 (timeout_env (replicate 1200 0)) (ready_state 1000) ''hi'')) ''yo'')
     \<in> {SayReturnedFalse, NoAudioData, PlaybackCompleted} \<and>
   g_isSpeaking
     ((espeak_say 1000 (quiet_env (replicate 1200 0)) (start_request (ready_state 1000)))
        \<lparr>avatar_expression := Happy, avatar_speechText := ''hi'', g_playbackPos := 0\<rparr>) \<and>
   speak 1000 (quiet_env [1, 0])
     ((espeak_say 1000 (quiet_env (replicate 1200 0)) (start_request (ready_state 1000)))
        \<lparr>avatar_expression := Happy, avatar_speechText := ''hi'', g_playbackPos := 0\<rparr>) ''yo'' =
     ((espeak_say 1000 (quiet_env (replicate 1200 0)) (start_request (ready_state 1000)))
        \<lparr>avatar_expression := Happy, avatar_speechText := ''hi'', g_playbackPos := 0\<rparr>,
      CannotSpeak) \<and>
   loop_cond (cancel_env []) 0 0
     ((ready_state 1000)\<lparr>g_isSpeaking := True, g_audioBufferPos := 600\<rparr>) \<and>
   speak 1000 (quiet_env [1, 0])
     ((ready_state 1000)\<lparr>g_isSpeaking := True, g_audioBufferPos := 600\<rparr>) ''yo'' =
     ((ready_state 1000)\<lparr>g_isSpeaking := True, g_audioBufferPos := 600\<rparr>, CannotSpeak) \<and>
   g_isSpeaking
     (playback_loop (quiet_env []) 0 0
        ((ready_state 1000)\<lparr>g_isSpeaking := True, g_audioBufferPos := 600\<rparr>)) \<and>
   \<not> g_isSpeaking
     (fst (loop_body (cancel_env []) 0
        ((ready_state 1000)\<lparr>g_isSpeaking := True, g_audioBufferPos := 600\<rparr>)))"
proof -
  let ?busy = "(ready_state 1000)\<lparr>g_isSpeaking := True\<rparr>"
  let ?s = "(ready_state 1000)\<lparr>g_isSpeaking := True, g_audioBufferPos := 600\<rparr>"
  let ?d = "replicate 1200 0 :: byte list"
  have b: "g_isSpeaking ?busy" "g_isSpeaking ?s"
    by (simp_all add: ready_state_def)
  have t: "''yo'' \<noteq> []" "length ''yo'' \<le> MAX_TEXT_LENGTH"
    by (simp_all add: MAX_TEXT_LENGTH_def)
  have f: "preconditions (ready_state 1000) ''hi''"
    "\<not> g_isSpeaking (ready_state 1000)"
    by (simp_all add: ready_state_fields)
  have p: "preconditions (ready_state 1000) ''hi'' \<and> say_result (quiet_env ?d) \<and>
      g_audioBufferPos (espeak_say 1000 (quiet_env ?d) (start_request (ready_state 1000))) \<noteq> 0"
    by (simp add: ready_state_fields sample_env_fields sample_say_pos)
  have c: "loop_cond (cancel_env []) 0 0 ?s"
    by (simp add: loop_cond_def sample_env_fields SPEECH_TIMEOUT_MS_def ready_state_def)
  have q: "\<forall>j. \<not> cleared_in_delay (quiet_env []) j"
    by (simp add: sample_env_fields)
  have r: "playRaw_result (cancel_env []) 0 \<and> cleared_in_delay (cancel_env []) 0"
    by (simp add: sample_env_fields)
  note rejected = gate_one_at_a_time
      [of ?busy 1000 "quiet_env [1, 0]" "''hi''", THEN conjunct1, THEN mp, THEN conjunct1]
  note idle = gate_one_at_a_time
      [of "ready_state 1000" 1000 "quiet_env ?d" "''hi''",
        THEN conjunct2, THEN conjunct2, THEN conjunct2, THEN conjunct1, THEN mp]
  note again = gate_one_at_a_time
      [of "ready_state 1000" 1000 _ "''hi''" "''yo''" "quiet_env [1, 0]",
        THEN conjunct2, THEN conjunct2, THEN conjunct2, THEN conjunct2, THEN conjunct1, THEN mp]
  note entry = gate_one_at_a_time
      [of "ready_state 1000" 1000 "quiet_env ?d" "''hi''" "''yo''" "quiet_env [1, 0]",
        THEN conjunct2, THEN conjunct2, THEN conjunct2, THEN conjunct2, THEN conjunct2,
        THEN conjunct1, THEN mp, THEN conjunct2]
  note top = gate_one_at_a_time
      [of _ 1000 "cancel_env []" _ "''yo''" "quiet_env [1, 0]" 0 0 ?s,
        THEN conjunct2, THEN conjunct2, THEN conjunct2, THEN conjunct2, THEN conjunct2,
        THEN conjunct2, THEN conjunct1, THEN mp]
  note body = gate_one_at_a_time
      [of _ _ "cancel_env []" _ _ _ _ 0 ?s,
        THEN conjunct2, THEN conjunct2, THEN conjunct2, THEN conjunct2, THEN conjunct2,
        THEN conjunct2, THEN conjunct2, THEN conjunct1]
  note whole = gate_one_at_a_time
      [of _ _ "quiet_env []" _ _ _ 0 0 ?s,
        THEN conjunct2, THEN conjunct2, THEN conjunct2, THEN conjunct2, THEN conjunct2,
        THEN conjunct2, THEN conjunct2, THEN conjunct2, THEN conjunct1, THEN mp]
  from rejected [OF b(1)] idle [OF f(2)]
    again [of "quiet_env ?d"] again [of "(quiet_env [])\<lparr>say_result := False\<rparr>"]
    again [of "timeout_env ?d"] entry [OF p] top [OF c] body whole f t b q r c
  show ?thesis
    by blast
qed

subsection \<open>The result of speak\<close>

text \<open>
  C10. \<^verbatim>\<open>speak\<close> returns \<^verbatim>\<open>true\<close> exactly when the preconditions hold, the synthesiser
  reports success and the write cursor is not 0 after synthesis. The clock, the results
  of \<^verbatim>\<open>playRaw\<close> and the clearing of the flag do not enter: two environments with the
  same synthesis give the same \<^verbatim>\<open>return\<close>.
\<close>

theorem speak_result_ignores_playback:
  "(returned (snd (speak cap e st text)) \<longleftrightarrow>
      preconditions st text \<and> say_result e \<and>
      g_audioBufferPos (espeak_say cap e (start_request st)) \<noteq> 0) \<and>
   (say_calls e' = say_calls e \<and> say_result e' = say_result e \<longrightarrow>
      snd (speak cap e' st text) = snd (speak cap e st text))"
  by (simp add: speak_snd preconditions_def espeak_say_def)

theorem speak_result_ignores_playback_witness:
  "returned (snd (speak 1000 (quiet_env (replicate 1200 0)) (ready_state 1000) ''hi'')) \<and>
   returned (snd (speak 1000 (timeout_env (replicate 1200 0)) (ready_state 1000) ''hi'')) \<and>
   returned (snd (speak 1000 (cancel_env (replicate 1200 0)) (ready_state 1000) ''hi'')) \<and>
   returned (snd (speak 1000 (failing_env (replicate 1200 0)) (ready_state 1000) ''hi'')) \<and>
   snd (speak 1000 (failing_env (replicate 1200 0)) (ready_state 1000) ''hi'') =
     snd (speak 1000 (quiet_env (replicate 1200 0)) (ready_state 1000) ''hi'')"
  using speak_result_ignores_playback [of 1000 "quiet_env (replicate 1200 0)" "ready_state 1000"
      "''hi''" "failing_env (replicate 1200 0)"]
    speak_result_ignores_playback [of 1000 "timeout_env (replicate 1200 0)" "ready_state 1000"
      "''hi''" "quiet_env (replicate 1200 0)"]
    speak_result_ignores_playback [of 1000 "cancel_env (replicate 1200 0)" "ready_state 1000"
      "''hi''" "quiet_env (replicate 1200 0)"]
    speak_result_ignores_playback [of 1000 "failing_env (replicate 1200 0)" "ready_state 1000"
      "''hi''" "quiet_env (replicate 1200 0)"]
  by (simp add: ready_state_fields sample_env_fields sample_say_pos)

subsection \<open>The completion step\<close>

text \<open>
  C1. Once \<^verbatim>\<open>speak\<close> has reached its playback loop (preconditions met, synthesis
  successful, write cursor not 0), its result is the completion step applied to the state
  with which the loop ended, for every environment and so for every way the loop can
  end: buffer drained, timeout, flag cleared, \<^verbatim>\<open>playRaw\<close> failed. In the final state the
  mouth ratio is 0, the expression is neutral, the caption is empty, the last call to the
  speaker is \<^verbatim>\<open>stop\<close>, the level is 0 and the flag is down.
\<close>

theorem completion_on_every_exit:
  "preconditions st text \<and> say_result e \<and>
   g_audioBufferPos (espeak_say cap e (start_request st)) \<noteq> 0 \<longrightarrow>
     speak cap e st text =
       (completion
          (playback_loop e (millis_start e) 0
             ((espeak_say cap e (start_request st))
                \<lparr>avatar_expression := Happy, avatar_speechText := text, g_playbackPos := 0\<rparr>)),
        PlaybackCompleted) \<and>
     avatar_mouthOpenRatio (fst (speak cap e st text)) = 0 \<and>
     avatar_expression (fst (speak cap e st text)) = Neutral \<and>
     avatar_speechText (fst (speak cap e st text)) = [] \<and>
     speaker_calls (fst (speak cap e st text)) \<noteq> [] \<and>
     last (speaker_calls (fst (speak cap e st text))) = Stop \<and>
     g_currentLevel (fst (speak cap e st text)) = 0 \<and>
     \<not> g_isSpeaking (fst (speak cap e st text))"
  by (simp add: speak_playing completion_def)

theorem completion_on_every_exit_witness:
  "speaker_calls (fst (speak 1000 (quiet_env (replicate 1200 0)) (ready_state 1000) ''hi'')) =
     [PlayRaw 0 512 True, PlayRaw 512 88 True, Stop] \<and>
   speaker_calls (fst (speak 1000 (timeout_env (replicate 1200 0)) (ready_state 1000) ''hi'')) =
     [PlayRaw 0 512 True, Stop] \<and>
   speaker_calls (fst (speak 1000 (cancel_env (replicate 1200 0)) (ready_state 1000) ''hi'')) =
     [PlayRaw 0 512 True, Stop] \<and>
   speaker_calls (fst (speak 1000 (failing_env (replicate 1200 0)) (ready_state 1000) ''hi'')) =
     [PlayRaw 0 512 False, Stop] \<and>
   avatar_mouthOpenRatio
     (fst (speak 1000 (timeout_env (replicate 1200 0)) (ready_state 1000) ''hi'')) = 0 \<and>
   avatar_expression
     (fst (speak 1000 (cancel_env (replicate 1200 0)) (ready_state 1000) ''hi'')) = Neutral \<and>
   avatar_speechText
     (fst (speak 1000 (failing_env (replicate 1200 0)) (ready_state 1000) ''hi'')) = [] \<and>
   g_currentLevel
     (fst (speak 1000 (quiet_env (replicate 1200 0)) (ready_state 1000) ''hi'')) = 0 \<and>
   \<not> g_isSpeaking (fst (speak 1000 (timeout_env (replicate 1200 0)) (ready_state 1000) ''hi''))"
  using completion_on_every_exit [of "ready_state 1000" "''hi''" "quiet_env (replicate 1200 0)" 1000,
      THEN mp, THEN conjunct2]
    completion_on_every_exit [of "ready_state 1000" "''hi''" "timeout_env (replicate 1200 0)" 1000,
      THEN mp, THEN conjunct2]
    completion_on_every_exit [of "ready_state 1000" "''hi''" "cancel_env (replicate 1200 0)" 1000,
      THEN mp, THEN conjunct2]
    completion_on_every_exit [of "ready_state 1000" "''hi''" "failing_env (replicate 1200 0)" 1000,
      THEN mp, THEN conjunct2]
    run_drained run_timeout run_cancelled run_play_failed
  by (simp add: ready_state_fields sample_env_fields sample_say_pos)

subsection \<open>Appending to the buffer\<close>

lemma two_chunks:
  assumes "g_playbackPos st = 0" and "g_audioBufferPos st = n"
    and "chunkSize < n" and "n \<le> 2 * chunkSize" and "g_isSpeaking st"
    and "\<And>k. playRaw_result e k" and "\<And>k. \<not> cleared_in_delay e k"
    and "\<And>k. millis_loop e k - t < SPEECH_TIMEOUT_MS"
  shows "speaker_calls (playback_loop e t 0 st) =
           speaker_calls st @ [PlayRaw 0 chunkSize True, PlayRaw chunkSize (n - chunkSize) True]"
    and "g_playbackPos (playback_loop e t 0 st) = n"
  using assms by (simp_all add: loop_eval)

lemma scenario_A:
  assumes pre: "preconditions st text" and len: "length data div 2 = 1500"
    and say: "say_calls e = [SinkWrite data]" "say_result e"
    and env: "\<And>k. playRaw_result e k" "\<And>k. \<not> cleared_in_delay e k"
      "\<And>k. millis_loop e k - millis_start e < SPEECH_TIMEOUT_MS"
  shows "snd (MemoryBufferStream_write 1000 (start_request st) data) = 2 * 1000"
    and "g_audioBufferPos (fst (speak 1000 e st text)) = 1000"
    and "g_playbackPos (fst (speak 1000 e st text)) = 1000"
    and "speaker_calls (fst (speak 1000 e st text)) =
           speaker_calls st @ [PlayRaw 0 512 True, PlayRaw 512 488 True, Stop]"
    and "snd (speak 1000 e st text) = PlaybackCompleted"
proof -
  from pre have rdy: "g_systemReady st" "g_audioBuffer st \<noteq> None"
    by (simp_all add: preconditions_def)
  with len show "snd (MemoryBufferStream_write 1000 (start_request st) data) = 2 * 1000"
    by (auto simp: write_fields samplesAccepted_def start_request_fields)
  let ?s = "espeak_say 1000 e (start_request st)"
  let ?p = "?s\<lparr>avatar_expression := Happy, avatar_speechText := text, g_playbackPos := 0\<rparr>"
  from say_one_write_pos [OF say(1) rdy, of 1000] len have pos: "g_audioBufferPos ?s = 1000"
    by simp
  have enter: "g_playbackPos ?p = 0" "g_audioBufferPos ?p = 1000" "g_isSpeaking ?p"
    "speaker_calls ?p = speaker_calls st"
    by (simp_all add: pos espeak_say_fields start_request_fields)
  have sp: "speak 1000 e st text =
      (completion (playback_loop e (millis_start e) 0 ?p), PlaybackCompleted)"
    using pre say(2) pos by (simp add: speak_playing)
  from two_chunks [of ?p 1000 e "millis_start e", OF enter(1,2) _ _ enter(3) env]
  have calls: "speaker_calls (playback_loop e (millis_start e) 0 ?p) =
        speaker_calls st @ [PlayRaw 0 512 True, PlayRaw 512 488 True]"
    and play: "g_playbackPos (playback_loop e (millis_start e) 0 ?p) = 1000"
    by (simp_all add: chunkSize_def enter)
  show "g_audioBufferPos (fst (speak 1000 e st text)) = 1000"
    by (simp add: sp completion_def loop_fixed_fields pos)
  show "g_playbackPos (fst (speak 1000 e st text)) = 1000"
    by (simp add: sp completion_def play)
  show "speaker_calls (fst (speak 1000 e st text)) =
           speaker_calls st @ [PlayRaw 0 512 True, PlayRaw 512 488 True, Stop]"
    by (simp add: sp completion_def calls)
  show "snd (speak 1000 e st text) = PlaybackCompleted"
    by (simp add: sp)
qed

text \<open>
  C2. An append is a push of \<open>n = len / 2\<close> samples through \<^verbatim>\<open>write\<close> while the system
  is ready and the buffer exists, with the write cursor within the capacity. If \<open>n\<close> is
  at most the remaining capacity, \<open>n\<close> samples are accepted and the cursor advances by
  \<open>n\<close>; otherwise the remaining capacity is accepted, the cursor ends at the capacity
  and the accepted count is below \<open>n\<close>. With a capacity of 1000 and a synthesiser that
  pushes 1500 samples in one block, 1000 samples are accepted, and a playback that
  nothing interrupts sends the speaker a chunk of 512 samples at 0, a chunk of 488
  samples at 512, and then stops it.
\<close>

theorem append_accepts_what_fits:
  "(g_systemReady st \<and> g_audioBuffer st \<noteq> None \<and> g_audioBufferPos st \<le> cap \<longrightarrow>
      (length data div 2 \<le> cap - g_audioBufferPos st \<longrightarrow>
         snd (MemoryBufferStream_write cap st data) div 2 = length data div 2 \<and>
         g_audioBufferPos (fst (MemoryBufferStream_write cap st data)) =
           g_audioBufferPos st + length data div 2) \<and>
      (cap - g_audioBufferPos st < length data div 2 \<longrightarrow>
         snd (MemoryBufferStream_write cap st data) div 2 = cap - g_audioBufferPos st \<and>
         g_audioBufferPos (fst (MemoryBufferStream_write cap st data)) = cap \<and>
         snd (MemoryBufferStream_write cap st data) div 2 < length data div 2)) \<and>
   (preconditions st text \<and> length data div 2 = 1500 \<and>
    say_calls e = [SinkWrite data] \<and> say_result e \<and>
    (\<forall>k. playRaw_result e k \<and> \<not> cleared_in_delay e k \<and>
         millis_loop e k - millis_start e < SPEECH_TIMEOUT_MS) \<longrightarrow>
      snd (MemoryBufferStream_write 1000 (start_request st) data) div 2 = 1000 \<and>
      g_audioBufferPos (fst (speak 1000 e st text)) = 1000 \<and>
      g_playbackPos (fst (speak 1000 e st text)) = 1000 \<and>
      speaker_calls (fst (speak 1000 e st text)) =
        speaker_calls st @ [PlayRaw 0 512 True, PlayRaw 512 488 True, Stop])"
proof -
  have fits:
    "g_systemReady st \<and> g_audioBuffer st \<noteq> None \<and> g_audioBufferPos st \<le> cap \<longrightarrow>
      (length data div 2 \<le> cap - g_audioBufferPos st \<longrightarrow>
         snd (MemoryBufferStream_write cap st data) div 2 = length data div 2 \<and>
         g_audioBufferPos (fst (MemoryBufferStream_write cap st data)) =
           g_audioBufferPos st + length data div 2) \<and>
      (cap - g_audioBufferPos st < length data div 2 \<longrightarrow>
         snd (MemoryBufferStream_write cap st data) div 2 = cap - g_audioBufferPos st \<and>
         g_audioBufferPos (fst (MemoryBufferStream_write cap st data)) = cap \<and>
         snd (MemoryBufferStream_write cap st data) div 2 < length data div 2)"
    by (auto simp: write_fields samplesAccepted_def)
  have scenario:
    "preconditions st text \<and> length data div 2 = 1500 \<and>
     say_calls e = [SinkWrite data] \<and> say_result e \<and>
     (\<forall>k. playRaw_result e k \<and> \<not> cleared_in_delay e k \<and>
          millis_loop e k - millis_start e < SPEECH_TIMEOUT_MS) \<longrightarrow>
      snd (MemoryBufferStream_write 1000 (start_request st) data) div 2 = 1000 \<and>
      g_audioBufferPos (fst (speak 1000 e st text)) = 1000 \<and>
      g_playbackPos (fst (speak 1000 e st text)) = 1000 \<and>
      speaker_calls (fst (speak 1000 e st text)) =
        speaker_calls st @ [PlayRaw 0 512 True, PlayRaw 512 488 True, Stop]"
    using scenario_A [of st "text" data e] by simp
  show ?thesis
    by (rule conjI) (rule fits, rule scenario)
qed

theorem append_accepts_what_fits_witness:
  "snd (MemoryBufferStream_write 1000 (ready_state 1000) (replicate 200 0)) div 2 = 100 \<and>
   g_audioBufferPos (fst (MemoryBufferStream_write 1000 (ready_state 1000) (replicate 200 0))) = 100 \<and>
   snd (MemoryBufferStream_write 1000 (start_request (ready_state 1000)) (replicate 3000 0)) div 2 =
     1000 \<and>
   speaker_calls (fst (speak 1000 (quiet_env (replicate 3000 0)) (ready_state 1000) ''hi'')) =
     [PlayRaw 0 512 True, PlayRaw 512 488 True, Stop] \<and>
   g_playbackPos (fst (speak 1000 (quiet_env (replicate 3000 0)) (ready_state 1000) ''hi'')) = 1000"
  using append_accepts_what_fits [of "ready_state 1000" 1000 "replicate 200 0" "''hi''"
      "quiet_env (replicate 200 0)"]
    append_accepts_what_fits [of "ready_state 1000" 1000 "replicate 3000 0" "''hi''"
      "quiet_env (replicate 3000 0)"]
  by (simp add: ready_state_fields sample_env_fields SPEECH_TIMEOUT_MS_def)
    (simp add: ready_state_def)

subsection \<open>The cursors\<close>

lemma begin_keeps_inv: "g_playbackPos st = 0 \<Longrightarrow> cursor_inv cap (MemoryBufferStream_begin st)"
  by (simp add: cursor_inv_def MemoryBufferStream_begin_def)

lemma write_keeps_inv:
  "cursor_inv cap st \<Longrightarrow> cursor_inv cap (fst (MemoryBufferStream_write cap st data))"
  by (auto simp: cursor_inv_def write_fields samplesAccepted_def)

lemma loop_keeps_inv: "cursor_inv cap st \<Longrightarrow> cursor_inv cap (playback_loop e t k st)"
  using loop_cursor [of st e t k] by (simp add: cursor_inv_def loop_fixed_fields)

lemma say_keeps_inv: "cursor_inv cap (espeak_say cap e (start_request st))"
  using espeak_say_pos [of "start_request st" cap e]
  by (simp add: cursor_inv_def espeak_say_fields start_request_fields)

lemma speak_keeps_inv: "cursor_inv cap st \<Longrightarrow> cursor_inv cap (fst (speak cap e st text))"
proof -
  assume inv: "cursor_inv cap st"
  let ?s = "espeak_say cap e (start_request st)"
  let ?p = "?s\<lparr>avatar_expression := Happy, avatar_speechText := text, g_playbackPos := 0\<rparr>"
  from say_keeps_inv [of cap e st] have s: "cursor_inv cap (?s\<lparr>g_isSpeaking := False\<rparr>)"
    by (simp add: cursor_inv_def)
  from say_keeps_inv [of cap e st] have "cursor_inv cap ?p"
    by (simp add: cursor_inv_def)
  then have "cursor_inv cap (playback_loop e (millis_start e) 0 ?p)"
    by (rule loop_keeps_inv)
  then have "cursor_inv cap (completion (playback_loop e (millis_start e) 0 ?p))"
    by (simp add: cursor_inv_def completion_def)
  with inv s show ?thesis
    by (simp add: speak_fst)
qed

text \<open>In the firmware the capacity is \<open>MAX_AUDIO_BUFFER_SIZE\<close>.\<close>

lemma firmware_write_bound:
  "g_audioBufferPos st \<le> MAX_AUDIO_BUFFER_SIZE \<Longrightarrow>
   g_audioBufferPos (fst (MemoryBufferStream_write MAX_AUDIO_BUFFER_SIZE st data)) \<le> 160000"
  by (auto simp: write_fields samplesAccepted_def MAX_AUDIO_BUFFER_SIZE_def)

text \<open>
  C7. \<open>readPos \<le> writePos \<le> capacity\<close> holds after the reset at the start of a
  request and is kept by every push through \<^verbatim>\<open>write\<close>, by every iteration of the playback
  loop, by the whole loop, by the whole run of the synthesiser within a request, and by
  \<^verbatim>\<open>speak\<close> as a whole. An iteration hands the speaker exactly
  \<open>min(writePos - readPos, 512)\<close> samples from the read cursor on, and moves the read
  cursor by that amount when the chunk was taken (not at all when \<^verbatim>\<open>playRaw\<close> failed).
  (\<^verbatim>\<open>begin\<close> of the stream zeroes the write cursor alone; it keeps the invariant where the
  read cursor is 0, as it is whenever the synthesiser runs: \<open>begin_keeps_inv\<close>.)
\<close>

theorem cursor_invariant:
  "cursor_inv cap (start_request st) \<and>
   (cursor_inv cap st \<longrightarrow> cursor_inv cap (fst (MemoryBufferStream_write cap st data))) \<and>
   (cursor_inv cap st \<and> loop_cond e t k st \<longrightarrow>
      cursor_inv cap (fst (loop_body e k st)) \<and>
      speaker_calls (fst (loop_body e k st)) =
        speaker_calls st @
        [PlayRaw (g_playbackPos st) (min (g_audioBufferPos st - g_playbackPos st) 512)
           (playRaw_result e k)] \<and>
      g_playbackPos (fst (loop_body e k st)) =
        (if playRaw_result e k
         then g_playbackPos st + min (g_audioBufferPos st - g_playbackPos st) 512
         else g_playbackPos st)) \<and>
   (cursor_inv cap st \<longrightarrow> cursor_inv cap (playback_loop e t k st)) \<and>
   cursor_inv cap (espeak_say cap e (start_request st)) \<and>
   (cursor_inv cap st \<longrightarrow> cursor_inv cap (fst (speak cap e st text)))"
proof -
  have body: "cursor_inv cap (fst (loop_body e k st))" if "cursor_inv cap st"
    using that by (auto simp: cursor_inv_def loop_body_fields)
  show ?thesis
    using body write_keeps_inv [of cap st data] loop_keeps_inv [of cap st e t k]
      say_keeps_inv [of cap e st] speak_keeps_inv [of cap st e "text"]
    by (simp add: loop_body_fields chunkSize_def)
      (simp add: cursor_inv_def start_request_fields)
qed

theorem cursor_invariant_witness:
  "cursor_inv 1000 ((ready_state 1000)\<lparr>g_isSpeaking := True, g_audioBufferPos := 600\<rparr>) \<and>
   loop_cond (timeout_env (replicate 1200 0)) 0 0
     ((ready_state 1000)\<lparr>g_isSpeaking := True, g_audioBufferPos := 600\<rparr>) \<and>
   cursor_inv 1000
     (fst (loop_body (timeout_env (replicate 1200 0)) 0
        ((ready_state 1000)\<lparr>g_isSpeaking := True, g_audioBufferPos := 600\<rparr>))) \<and>
   speaker_calls
     (fst (loop_body (timeout_env (replicate 1200 0)) 0
        ((ready_state 1000)\<lparr>g_isSpeaking := True, g_audioBufferPos := 600\<rparr>))) =
     [PlayRaw 0 512 True] \<and>
   g_playbackPos
     (fst (loop_body (timeout_env (replicate 1200 0)) 0
        ((ready_state 1000)\<lparr>g_isSpeaking := True, g_audioBufferPos := 600\<rparr>))) = 512 \<and>
   cursor_inv 1000
     (fst (MemoryBufferStream_write 1000
        ((ready_state 1000)\<lparr>g_isSpeaking := True, g_audioBufferPos := 600\<rparr>)
        (replicate 3000 0))) \<and>
   cursor_inv 1000
     (fst (speak 1000 (timeout_env (replicate 1200 0))
        ((ready_state 1000)\<lparr>g_isSpeaking := True, g_audioBufferPos := 600\<rparr>) ''hi''))"
proof -
  let ?s = "(ready_state 1000)\<lparr>g_isSpeaking := True, g_audioBufferPos := 600\<rparr>"
  let ?e = "timeout_env (replicate 1200 0)"
  have s: "cursor_inv 1000 ?s"
    by (simp add: cursor_inv_def ready_state_def)
  have c: "loop_cond ?e 0 0 ?s"
    by (simp add: loop_cond_def sample_env_fields SPEECH_TIMEOUT_MS_def ready_state_def)
  have p: "speaker_calls ?s = []" "g_playbackPos ?s = 0" "g_audioBufferPos ?s = 600"
    by (simp_all add: ready_state_def)
  from cursor_invariant [of 1000 ?s "replicate 3000 0" ?e 0 0 "''hi''"] s c
  show ?thesis
    by (simp add: p sample_env_fields)
qed

subsection \<open>Checks at the top of each iteration\<close>

text \<open>
  C8. The loop is entered anew for every chunk (\<open>playback_loop e t k st\<close> is iteration
  \<open>k\<close> in state \<open>st\<close>), so the following holds at every iteration. If the flag is down,
  or the elapsed time \<^verbatim>\<open>millis() - startTime\<close> is not below the timeout, the loop returns
  the state as it is: no chunk is dispatched. Conversely, when the loop has made any
  call to the speaker, both checks had passed at the top of that iteration. If the flag
  is cleared during the delay of an iteration, or the timeout has passed at the next
  check, that iteration's chunk is the last one. In \<^verbatim>\<open>speak\<close>, a timeout at the first
  check leads straight to the completion step, as a drained buffer does.
\<close>

theorem loop_checks_before_dispatch:
  "(\<not> g_isSpeaking st \<longrightarrow> playback_loop e t k st = st) \<and>
   (\<not> millis_loop e k - t < SPEECH_TIMEOUT_MS \<longrightarrow> playback_loop e t k st = st) \<and>
   (speaker_calls (playback_loop e t k st) \<noteq> speaker_calls st \<longrightarrow>
      g_isSpeaking st \<and> millis_loop e k - t < SPEECH_TIMEOUT_MS) \<and>
   (loop_cond e t k st \<and> playRaw_result e k \<and>
    (cleared_in_delay e k \<or> \<not> millis_loop e (Suc k) - t < SPEECH_TIMEOUT_MS) \<longrightarrow>
      playback_loop e t k st = fst (loop_body e k st)) \<and>
   (preconditions st text \<and> say_result e \<and>
    g_audioBufferPos (espeak_say cap e (start_request st)) \<noteq> 0 \<and>
    \<not> millis_loop e 0 - millis_start e < SPEECH_TIMEOUT_MS \<longrightarrow>
      fst (speak cap e st text) =
        completion
          ((espeak_say cap e (start_request st))
             \<lparr>avatar_expression := Happy, avatar_speechText := text, g_playbackPos := 0\<rparr>))"
proof -
  have flag: "playback_loop e t k st = st" if "\<not> g_isSpeaking st"
    using that by (simp add: loop_exit loop_cond_def)
  have time: "playback_loop e t k st = st" if "\<not> millis_loop e k - t < SPEECH_TIMEOUT_MS"
    using that by (simp add: loop_exit loop_cond_def)
  have dispatched: "g_isSpeaking st \<and> millis_loop e k - t < SPEECH_TIMEOUT_MS"
    if "speaker_calls (playback_loop e t k st) \<noteq> speaker_calls st"
  proof (rule ccontr)
    assume "\<not> (g_isSpeaking st \<and> millis_loop e k - t < SPEECH_TIMEOUT_MS)"
    then have "playback_loop e t k st = st"
      using flag time by blast
    with that show False by simp
  qed
  have last_chunk: "playback_loop e t k st = fst (loop_body e k st)"
    if "loop_cond e t k st" and "playRaw_result e k"
      and "cleared_in_delay e k \<or> \<not> millis_loop e (Suc k) - t < SPEECH_TIMEOUT_MS"
  proof -
    from that(2,3) have "\<not> loop_cond e t (Suc k) (fst (loop_body e k st))"
      by (auto simp: loop_cond_def loop_body_fields)
    with that(1,2) show ?thesis
      by (simp add: loop_next loop_exit)
  qed
  have in_speak: "fst (speak cap e st text) =
        completion
          ((espeak_say cap e (start_request st))
             \<lparr>avatar_expression := Happy, avatar_speechText := text, g_playbackPos := 0\<rparr>)"
    if "preconditions st text" and "say_result e"
      and "g_audioBufferPos (espeak_say cap e (start_request st)) \<noteq> 0"
      and "\<not> millis_loop e 0 - millis_start e < SPEECH_TIMEOUT_MS"
    using that by (simp add: speak_fst loop_exit loop_cond_def)
  show ?thesis
    using flag time dispatched last_chunk in_speak by blast
qed

theorem loop_checks_before_dispatch_witness:
  "playback_loop (quiet_env []) 0 0 ((ready_state 1000)\<lparr>g_audioBufferPos := 600\<rparr>) =
     (ready_state 1000)\<lparr>g_audioBufferPos := 600\<rparr> \<and>
   playback_loop (timeout_env []) 0 1
     ((ready_state 1000)\<lparr>g_isSpeaking := True, g_audioBufferPos := 600\<rparr>) =
     (ready_state 1000)\<lparr>g_isSpeaking := True, g_audioBufferPos := 600\<rparr> \<and>
   loop_cond (cancel_env []) 0 0
     ((ready_state 1000)\<lparr>g_isSpeaking := True, g_audioBufferPos := 600\<rparr>) \<and>
   playback_loop (cancel_env []) 0 0
     ((ready_state 1000)\<lparr>g_isSpeaking := True, g_audioBufferPos := 600\<rparr>) =
     fst (loop_body (cancel_env []) 0
        ((ready_state 1000)\<lparr>g_isSpeaking := True, g_audioBufferPos := 600\<rparr>))"
proof -
  let ?i = "(ready_state 1000)\<lparr>g_audioBufferPos := 600\<rparr>"
  let ?s = "(ready_state 1000)\<lparr>g_isSpeaking := True, g_audioBufferPos := 600\<rparr>"
  have i: "\<not> g_isSpeaking ?i"
    by (simp add: ready_state_def)
  have t: "\<not> millis_loop (timeout_env []) 1 - 0 < SPEECH_TIMEOUT_MS"
    by (simp add: sample_env_fields SPEECH_TIMEOUT_MS_def)
  have c: "loop_cond (cancel_env []) 0 0 ?s"
    by (simp add: loop_cond_def sample_env_fields SPEECH_TIMEOUT_MS_def ready_state_def)
  have d: "playRaw_result (cancel_env []) 0" "cleared_in_delay (cancel_env []) 0"
    by (simp_all add: sample_env_fields)
  note w = loop_checks_before_dispatch [of ?i "quiet_env []" 0 0, THEN conjunct1]
    loop_checks_before_dispatch [of ?s "timeout_env []" 0 1, THEN conjunct2, THEN conjunct1]
    loop_checks_before_dispatch [of ?s "cancel_env []" 0 0,
      THEN conjunct2, THEN conjunct2, THEN conjunct2, THEN conjunct1]
  from w i t c d show ?thesis
    by blast
qed

end
